theory Spec2Isabelle
  imports Complex_Main
begin

section \<open>Python values used by the evaluation harness\<close>

text \<open>
  The harness lives in \<^verbatim>\<open>src/palimpzest/utils/experiment_utils.py\<close>. Its three
  functions \<^verbatim>\<open>load_ground_truth\<close>, \<^verbatim>\<open>compute_f1\<close> and
  \<^verbatim>\<open>write_results_and_plans\<close> are embedded below. Every exception the Python can
  raise is a value \<open>Inl e\<close> of a sum type; a \<^verbatim>\<open>try/except Exception\<close> is the
  case distinction that replaces \<open>Inl e\<close> by the handler's value.

  Strings are ASCII text (\<open>char list\<close>): \<^verbatim>\<open>str.strip\<close> removes the ASCII
  characters for which \<^verbatim>\<open>str.isspace\<close> holds, \<^verbatim>\<open>str.lower\<close> maps
  \<open>A\<close>..\<open>Z\<close> to \<open>a\<close>..\<open>z\<close>.
\<close>

datatype exn = ValueError | TypeError | AttributeError | KeyError | IndexError | OSError

definition whitespace :: "char list" where
  "whitespace = [CHR 0x20, CHR 0x09, CHR 0x0A, CHR 0x0B, CHR 0x0C, CHR 0x0D,
                 CHR 0x1C, CHR 0x1D, CHR 0x1E, CHR 0x1F]"

definition is_space :: "char \<Rightarrow> bool" where
  "is_space c = (c \<in> set whitespace)"

definition strip :: "string \<Rightarrow> string" where
  "strip s = rev (dropWhile is_space (rev (dropWhile is_space s)))"

definition upper_letters :: "char list" where
  "upper_letters = ''ABCDEFGHIJKLMNOPQRSTUVWXYZ''"

definition lower_letters :: "char list" where
  "lower_letters = ''abcdefghijklmnopqrstuvwxyz''"

definition lower_char :: "char \<Rightarrow> char" where
  "lower_char c = (case map_of (zip upper_letters lower_letters) c of None \<Rightarrow> c | Some d \<Rightarrow> d)"

definition lower :: "string \<Rightarrow> string" where
  "lower s = map lower_char s"

text \<open>\<^verbatim>\<open>k in s\<close> on strings: \<open>k\<close> occurs in \<open>s\<close> as a contiguous block.\<close>

fun starts_with :: "string \<Rightarrow> string \<Rightarrow> bool" where
  "starts_with s [] = True"
| "starts_with [] (k # ks) = False"
| "starts_with (c # cs) (k # ks) = (c = k \<and> starts_with cs ks)"

fun str_contains :: "string \<Rightarrow> string \<Rightarrow> bool" where
  "str_contains [] k = (k = [])"
| "str_contains (c # cs) k = (starts_with (c # cs) k \<or> str_contains cs k)"

subsection \<open>Decimal rendering and parsing of integers\<close>

definition digit_char :: "nat \<Rightarrow> char" where
  "digit_char d =
     (if d = 0 then CHR ''0'' else if d = 1 then CHR ''1'' else if d = 2 then CHR ''2''
      else if d = 3 then CHR ''3'' else if d = 4 then CHR ''4'' else if d = 5 then CHR ''5''
      else if d = 6 then CHR ''6'' else if d = 7 then CHR ''7'' else if d = 8 then CHR ''8''
      else CHR ''9'')"

fun str_nat :: "nat \<Rightarrow> string" where
  "str_nat n = (if n < 10 then [digit_char n] else str_nat (n div 10) @ [digit_char (n mod 10)])"

declare str_nat.simps [simp del]

definition str_int :: "int \<Rightarrow> string" where
  "str_int i = (if i < 0 then CHR ''-'' # str_nat (nat (- i)) else str_nat (nat i))"

definition digit_val :: "char \<Rightarrow> nat option" where
  "digit_val c = map_of (zip ''0123456789'' [0, 1, 2, 3, 4, 5, 6, 7, 8, 9]) c"

text \<open>
  The digits of an integer literal, most significant first, read into an accumulator.
  Python accepts single underscores between digits; \<open>prev_digit\<close> says whether the
  character before was a digit.
\<close>

fun parse_digits :: "bool \<Rightarrow> nat \<Rightarrow> string \<Rightarrow> nat option" where
  "parse_digits prev_digit acc [] = (if prev_digit then Some acc else None)"
| "parse_digits prev_digit acc (c # cs) =
     (if c = CHR ''_'' then (if prev_digit then parse_digits False acc cs else None)
      else (case digit_val c of
              None \<Rightarrow> None
            | Some d \<Rightarrow> parse_digits True (10 * acc + d) cs))"

definition int_of_string :: "string \<Rightarrow> exn + int" where
  "int_of_string s =
     (let t = strip s;
          (neg, body) = (case t of
                           c # cs \<Rightarrow> if c = CHR ''-'' then (True, cs)
                                     else if c = CHR ''+'' then (False, cs) else (False, t)
                         | [] \<Rightarrow> (False, t))
      in case parse_digits False 0 body of
           None \<Rightarrow> Inl ValueError
         | Some n \<Rightarrow> Inr (if neg then - int n else int n))"

subsection \<open>Table cells\<close>

text \<open>
  \<^verbatim>\<open>pd.read_csv\<close> yields a frame whose cells are text, integers, booleans, or
  the missing-value marker NaN (an empty field). Columns of finite floating-point numbers
  are not modelled. A frame is a list of column names and a list of rows, numbered from 0
  as \<^verbatim>\<open>iterrows\<close> numbers them.
\<close>

datatype cell = CStr string | CInt int | CBool bool | CNaN

record dataframe =
  columns :: "string list"
  rows :: "cell list list"

fun py_str :: "cell \<Rightarrow> string" where
  "py_str (CStr s) = s"
| "py_str (CInt i) = str_int i"
| "py_str (CBool b) = (if b then ''True'' else ''False'')"
| "py_str CNaN = ''nan''"

text \<open>\<^verbatim>\<open>int(x)\<close>: raises \<^verbatim>\<open>ValueError\<close> on NaN and on text that is no integer literal.\<close>

fun py_int :: "cell \<Rightarrow> exn + int" where
  "py_int (CStr s) = int_of_string s"
| "py_int (CInt i) = Inr i"
| "py_int (CBool b) = Inr (if b then 1 else 0)"
| "py_int CNaN = Inl ValueError"

text \<open>Truth value of a cell (\<^verbatim>\<open>not x\<close> is its negation); NaN is true.\<close>

fun truthy :: "cell \<Rightarrow> bool" where
  "truthy (CStr s) = (s \<noteq> [])"
| "truthy (CInt i) = (i \<noteq> 0)"
| "truthy (CBool b) = b"
| "truthy CNaN = True"

text \<open>
  What \<^verbatim>\<open>row[name]\<close> and \<^verbatim>\<open>row.get(name)\<close> give: the cell under the column of that
  name, or, when the name labels several columns (two headers can agree once line 21 has
  trimmed and lower-cased them), the pandas Series of all the cells under that name.
\<close>

datatype looked = Cell cell | Series "cell list"

definition row_lookup :: "string list \<Rightarrow> cell list \<Rightarrow> string \<Rightarrow> looked option" where
  "row_lookup cols row name =
     (case map snd (filter (\<lambda>(c, v). c = name) (zip cols row)) of
        [] \<Rightarrow> None
      | v # [] \<Rightarrow> Some (Cell v)
      | v # w # ws \<Rightarrow> Some (Series (v # w # ws)))"

text \<open>
  \<^verbatim>\<open>int\<close> of a Series of several cells raises \<^verbatim>\<open>TypeError\<close>; its truth value is
  ambiguous and asking for it raises \<^verbatim>\<open>ValueError\<close>.
\<close>

fun looked_int :: "looked \<Rightarrow> exn + int" where
  "looked_int (Cell c) = py_int c"
| "looked_int (Series vs) = Inl TypeError"

fun looked_truthy :: "looked \<Rightarrow> exn + bool" where
  "looked_truthy (Cell c) = Inr (truthy c)"
| "looked_truthy (Series vs) = Inl ValueError"

subsection \<open>Dictionaries\<close>

text \<open>
  A Python \<^verbatim>\<open>dict\<close> keeps insertion order, and \<^verbatim>\<open>d[k] = v\<close> on a key that is
  present replaces the value in place.
\<close>

fun dict_set :: "('k \<times> 'v) list \<Rightarrow> 'k \<Rightarrow> 'v \<Rightarrow> ('k \<times> 'v) list" where
  "dict_set [] k v = [(k, v)]"
| "dict_set ((k', v') # d) k v = (if k' = k then (k, v) # d else (k', v') # dict_set d k v)"

text \<open>
  The ground-truth index: for the flat workloads a dictionary from identifier to integer
  label, for the nested workload a dictionary from source key to a dictionary from
  attribute name to the "should exist" flag. Both are Python dictionaries, so the values
  are tagged.
\<close>

datatype gtval = GInt int | GDict "(string \<times> bool) list"

type_synonym gt_index = "(string \<times> gtval) list"

section \<open>load_ground_truth\<close>

text \<open>
  What the loader takes from the outside: \<^verbatim>\<open>os.path.exists\<close>, \<^verbatim>\<open>pd.read_csv\<close>
  and \<^verbatim>\<open>os.listdir\<close>, each of the last two either raising or returning, and the
  text pandas prints for a Series, \<^verbatim>\<open>str(series)\<close>, which depends on the number of the
  row, the name and the cells.
\<close>

record fs_env =
  path_exists :: "string \<Rightarrow> bool"
  read_csv :: "string \<Rightarrow> exn + dataframe"
  listdir :: "string \<Rightarrow> exn + string list"
  series_text :: "nat \<Rightarrow> string \<Rightarrow> cell list \<Rightarrow> string"

text \<open>\<^verbatim>\<open>str(x)\<close> of what a lookup in row \<open>i\<close> under \<open>name\<close> gave.\<close>

fun looked_str :: "fs_env \<Rightarrow> nat \<Rightarrow> string \<Rightarrow> looked \<Rightarrow> string" where
  "looked_str env i name (Cell c) = py_str c"
| "looked_str env i name (Series vs) = series_text env i name vs"

text \<open>Lines 26 and 54: the directory listing, empty when the directory does not exist.\<close>

definition actual_entries :: "fs_env \<Rightarrow> string \<Rightarrow> exn + string list" where
  "actual_entries env dataset_dir =
     (if path_exists env dataset_dir then listdir env dataset_dir else Inr [])"

subsection \<open>Workload enron (lines 25-51)\<close>

text \<open>
  The row loops below take the number \<open>i\<close> of the row they are at. Lines 29-35: the
  identifier; \<^verbatim>\<open>row.get(cand, "")\<close> gives the empty string on a row without that cell.
\<close>

definition enron_fname :: "fs_env \<Rightarrow> string list \<Rightarrow> nat \<Rightarrow> cell list \<Rightarrow> exn + string" where
  "enron_fname env cols i row =
     (let fname = (case find (\<lambda>cand. cand \<in> set cols) [''filename'', ''file'', ''name''] of
                     None \<Rightarrow> None
                   | Some cand \<Rightarrow>
                       Some (strip (case row_lookup cols row cand of
                                      None \<Rightarrow> []
                                    | Some l \<Rightarrow> looked_str env i cand l)))
      in case fname of
           Some (c # cs) \<Rightarrow> Inr (c # cs)
         | _ \<Rightarrow> (case row of
                   [] \<Rightarrow> Inl IndexError
                 | c0 # _ \<Rightarrow> Inr (strip (py_str c0))))"

text \<open>Lines 37-46: the label; every failure of \<^verbatim>\<open>int\<close> gives the label 1.\<close>

definition enron_label :: "string list \<Rightarrow> cell list \<Rightarrow> int" where
  "enron_label cols row =
     (case find (\<lambda>cand. cand \<in> set cols) [''label'', ''y'', ''target''] of
        None \<Rightarrow> 1
      | Some cand \<Rightarrow>
          (case (case row_lookup cols row cand of None \<Rightarrow> Inr 1 | Some l \<Rightarrow> looked_int l) of
             Inl e \<Rightarrow> 1
           | Inr n \<Rightarrow> n))"

definition enron_row ::
  "fs_env \<Rightarrow> string list \<Rightarrow> string list \<Rightarrow> nat \<Rightarrow> cell list \<Rightarrow> gt_index \<Rightarrow> exn + gt_index" where
  "enron_row env cols actual_files i row gt =
     (case enron_fname env cols i row of
        Inl e \<Rightarrow> Inl e
      | Inr fname \<Rightarrow>
          (let label = enron_label cols row
           in Inr (if fname \<in> set actual_files then dict_set gt fname (GInt label) else gt)))"

fun enron_rows ::
  "fs_env \<Rightarrow> string list \<Rightarrow> string list \<Rightarrow> nat \<Rightarrow> cell list list \<Rightarrow> gt_index \<Rightarrow> exn + gt_index" where
  "enron_rows env cols actual_files i [] gt = Inr gt"
| "enron_rows env cols actual_files i (row # rest) gt =
     (case enron_row env cols actual_files i row gt of
        Inl e \<Rightarrow> Inl e
      | Inr gt' \<Rightarrow> enron_rows env cols actual_files (Suc i) rest gt')"

subsection \<open>Workload real-estate (lines 53-69)\<close>

text \<open>
  A step of the row loop returns \<open>None\<close> for \<^verbatim>\<open>continue\<close>. The test
  \<^verbatim>\<open>if not listing_id\<close> raises on a Series. The label is read with an unguarded
  \<^verbatim>\<open>int(row[label_col])\<close>, before the membership test.
\<close>

definition real_estate_row ::
  "fs_env \<Rightarrow> string list \<Rightarrow> string list \<Rightarrow> nat \<Rightarrow> cell list \<Rightarrow> gt_index \<Rightarrow>
   exn + gt_index option" where
  "real_estate_row env cols actual_listings i row gt =
     (let label_col = (if ''label'' \<in> set cols then Some ''label'' else None);
          listing_id = (case find (\<lambda>cand. cand \<in> set cols)
                               [''listing'', ''filename'', ''id'', ''name''] of
                          None \<Rightarrow> None
                        | Some cand \<Rightarrow>
                            (case row_lookup cols row cand of
                               None \<Rightarrow> None
                             | Some l \<Rightarrow> Some (cand, l)))
      in case listing_id of
           None \<Rightarrow> Inr None
         | Some (cand, l) \<Rightarrow>
             (case looked_truthy l of
                Inl e \<Rightarrow> Inl e
              | Inr t \<Rightarrow>
                  if \<not> t then Inr None
                  else
                    (let listing = strip (looked_str env i cand l)
                     in case (case label_col of
                                None \<Rightarrow> Inr 1
                              | Some lc \<Rightarrow> (case row_lookup cols row lc of
                                              None \<Rightarrow> Inl KeyError
                                            | Some ll \<Rightarrow> looked_int ll)) of
                          Inl e \<Rightarrow> Inl e
                        | Inr label \<Rightarrow>
                            Inr (Some (if listing \<in> set actual_listings
                                       then dict_set gt listing (GInt label) else gt)))))"

fun real_estate_rows ::
  "fs_env \<Rightarrow> string list \<Rightarrow> string list \<Rightarrow> nat \<Rightarrow> cell list list \<Rightarrow> gt_index \<Rightarrow>
   exn + gt_index" where
  "real_estate_rows env cols actual_listings i [] gt = Inr gt"
| "real_estate_rows env cols actual_listings i (row # rest) gt =
     (case real_estate_row env cols actual_listings i row gt of
        Inl e \<Rightarrow> Inl e
      | Inr None \<Rightarrow> real_estate_rows env cols actual_listings (Suc i) rest gt
      | Inr (Some gt') \<Rightarrow> real_estate_rows env cols actual_listings (Suc i) rest gt')"

subsection \<open>Workload medical-schema-matching (lines 71-85)\<close>

text \<open>Line 83, on the text \<^verbatim>\<open>original_col = str(row[author])\<close>.\<close>

definition should_exist :: "string \<Rightarrow> bool" where
  "should_exist original_col = (lower original_col \<noteq> ''missing'' \<and> lower original_col \<noteq> ''nan'')"

text \<open>
  One pass of the inner loop: \<^verbatim>\<open>row[df.columns[0]]\<close> and \<^verbatim>\<open>row[author]\<close>
  raise \<^verbatim>\<open>KeyError\<close> on a row that has no such cell. The name of the attribute and
  the flag it is recorded with:
\<close>

definition medical_entry ::
  "fs_env \<Rightarrow> string list \<Rightarrow> string \<Rightarrow> nat \<Rightarrow> cell list \<Rightarrow> exn + (string \<times> bool)" where
  "medical_entry env cols author i row =
     (case row_lookup cols row (hd cols) of
        None \<Rightarrow> Inl KeyError
      | Some attr \<Rightarrow>
          (case row_lookup cols row author of
             None \<Rightarrow> Inl KeyError
           | Some original_col \<Rightarrow>
               Inr (strip (looked_str env i (hd cols) attr),
                    should_exist (looked_str env i author original_col))))"

definition medical_row ::
  "fs_env \<Rightarrow> string list \<Rightarrow> string \<Rightarrow> nat \<Rightarrow> cell list \<Rightarrow> (string \<times> bool) list \<Rightarrow>
   exn + (string \<times> bool) list" where
  "medical_row env cols author i row inner =
     (if cols = [] then Inr inner
      else (case medical_entry env cols author i row of
              Inl e \<Rightarrow> Inl e
            | Inr (name, flag) \<Rightarrow> Inr (dict_set inner name flag)))"

fun medical_rows ::
  "fs_env \<Rightarrow> string list \<Rightarrow> string \<Rightarrow> nat \<Rightarrow> cell list list \<Rightarrow> (string \<times> bool) list \<Rightarrow>
   exn + (string \<times> bool) list" where
  "medical_rows env cols author i [] inner = Inr inner"
| "medical_rows env cols author i (row # rest) inner =
     (case medical_row env cols author i row inner of
        Inl e \<Rightarrow> Inl e
      | Inr inner' \<Rightarrow> medical_rows env cols author (Suc i) rest inner')"

text \<open>
  The outer loop: \<^verbatim>\<open>gt_map[key] = {}\<close> followed by the inner loop that fills this
  dictionary in place; no other key is touched meanwhile, so the entry is set once, to the
  filled dictionary.
\<close>

fun medical_authors ::
  "fs_env \<Rightarrow> string list \<Rightarrow> cell list list \<Rightarrow> string list \<Rightarrow> gt_index \<Rightarrow> exn + gt_index" where
  "medical_authors env cols rws [] gt_map = Inr gt_map"
| "medical_authors env cols rws (author # rest) gt_map =
     (let key = strip (lower author)
      in case medical_rows env cols author 0 rws [] of
           Inl e \<Rightarrow> Inl e
         | Inr inner \<Rightarrow> medical_authors env cols rws rest (dict_set gt_map key (GDict inner)))"

subsection \<open>The loader\<close>

text \<open>Line 21: the column names are trimmed and lower-cased.\<close>

definition normalize_columns :: "dataframe \<Rightarrow> dataframe" where
  "normalize_columns df = df\<lparr>columns := map (\<lambda>c. lower (strip c)) (columns df)\<rparr>"

definition load_ground_truth :: "fs_env \<Rightarrow> string \<Rightarrow> string \<Rightarrow> string \<Rightarrow> exn + gt_index" where
  "load_ground_truth env workload gt_path dataset_dir =
     (if gt_path = [] \<or> \<not> path_exists env gt_path then Inr []
      else
        (case read_csv env gt_path of
           Inl e \<Rightarrow> Inr []
         | Inr df0 \<Rightarrow>
             (let df = normalize_columns df0
              in if workload = ''enron'' then
                   (case actual_entries env dataset_dir of
                      Inl e \<Rightarrow> Inl e
                    | Inr actual_files \<Rightarrow>
                        enron_rows env (columns df) actual_files 0 (rows df) [])
                 else if workload = ''real-estate'' then
                   (case actual_entries env dataset_dir of
                      Inl e \<Rightarrow> Inl e
                    | Inr actual_listings \<Rightarrow>
                        real_estate_rows env (columns df) actual_listings 0 (rows df) [])
                 else if workload = ''medical-schema-matching'' then
                   medical_authors env (columns df) (rows df) (tl (columns df)) []
                 else Inr [])))"

section \<open>compute_f1\<close>

text \<open>
  A result record is an object read with \<^verbatim>\<open>getattr\<close>/\<^verbatim>\<open>hasattr\<close>: a list of
  attribute names with their values. A finite float is represented by the rational number
  it denotes.
\<close>

datatype pyval = VNone | VStr string | VInt int | VBool bool | VFloat rat

type_synonym pyobj = "(string \<times> pyval) list"

text \<open>
  Line 98, the set comprehension
  \<^verbatim>\<open>{getattr(r, key_attr).strip() for r in results if hasattr(r, key_attr)}\<close>:
  a record without the attribute is skipped, an attribute that is no string raises
  \<^verbatim>\<open>AttributeError\<close> at \<^verbatim>\<open>.strip()\<close>.
\<close>

fun predicted_positives :: "string \<Rightarrow> pyobj list \<Rightarrow> exn + string list" where
  "predicted_positives key_attr [] = Inr []"
| "predicted_positives key_attr (r # rs) =
     (case map_of r key_attr of
        None \<Rightarrow> predicted_positives key_attr rs
      | Some (VStr s) \<Rightarrow>
          (case predicted_positives key_attr rs of
             Inl e \<Rightarrow> Inl e
           | Inr ps \<Rightarrow> Inr (strip s # ps))
      | Some _ \<Rightarrow> Inl AttributeError)"

text \<open>Lines 100-102: one entry of each vector per entry of the index, in its order.\<close>

definition flat_vectors :: "gt_index \<Rightarrow> string list \<Rightarrow> gtval list \<times> int list" where
  "flat_vectors gt_data preds =
     (map snd gt_data, map (\<lambda>(item_id, label). if item_id \<in> set preds then 1 else 0) gt_data)"

text \<open>
  Line 106, \<^verbatim>\<open>getattr(record, 'filename', '') or ''\<close>, followed by the
  \<^verbatim>\<open>fname.lower()\<close> of line 107, which raises on a true value that is no string.
\<close>

definition record_fname_lower :: "pyobj \<Rightarrow> exn + string" where
  "record_fname_lower record =
     (case map_of record ''filename'' of
        None \<Rightarrow> Inr []
      | Some VNone \<Rightarrow> Inr []
      | Some (VStr s) \<Rightarrow> Inr (lower s)
      | Some (VInt i) \<Rightarrow> if i = 0 then Inr [] else Inl AttributeError
      | Some (VBool b) \<Rightarrow> if b then Inl AttributeError else Inr []
      | Some (VFloat f) \<Rightarrow> if f = 0 then Inr [] else Inl AttributeError)"

text \<open>
  Lines 112-113: \<^verbatim>\<open>str(val).strip() != ""\<close>; the text of a number or a boolean
  is never blank.
\<close>

definition has_value :: "pyobj \<Rightarrow> string \<Rightarrow> int" where
  "has_value record attr =
     (case map_of record attr of
        None \<Rightarrow> 0
      | Some VNone \<Rightarrow> 0
      | Some (VStr s) \<Rightarrow> if strip s \<noteq> [] then 1 else 0
      | Some _ \<Rightarrow> 1)"

definition nested_record ::
  "gt_index \<Rightarrow> pyobj \<Rightarrow> exn + (gtval list \<times> int list)" where
  "nested_record gt_data record =
     (case record_fname_lower record of
        Inl e \<Rightarrow> Inl e
      | Inr fname \<Rightarrow>
          (case find (\<lambda>k. str_contains fname k) (map fst gt_data) of
             None \<Rightarrow> Inr ([], [])
           | Some matched_key \<Rightarrow>
               if matched_key = [] then Inr ([], [])
               else
                 (case map_of gt_data matched_key of
                    None \<Rightarrow> Inl KeyError
                  | Some (GInt i) \<Rightarrow> Inl AttributeError
                  | Some (GDict targets) \<Rightarrow>
                      Inr (map (\<lambda>(attr, se). GInt (if se then 1 else 0)) targets,
                           map (\<lambda>(attr, se). has_value record attr) targets))))"

fun nested_vectors :: "gt_index \<Rightarrow> pyobj list \<Rightarrow> exn + (gtval list \<times> int list)" where
  "nested_vectors gt_data [] = Inr ([], [])"
| "nested_vectors gt_data (record # rest) =
     (case nested_record gt_data record of
        Inl e \<Rightarrow> Inl e
      | Inr (yt, yp) \<Rightarrow>
          (case nested_vectors gt_data rest of
             Inl e \<Rightarrow> Inl e
           | Inr (yt', yp') \<Rightarrow> Inr (yt @ yt', yp @ yp')))"

definition key_attr_of :: "string \<Rightarrow> string" where
  "key_attr_of workload = (if workload = ''enron'' then ''filename'' else ''listing'')"

definition build_vectors ::
  "pyobj list \<Rightarrow> gt_index \<Rightarrow> string \<Rightarrow> exn + (gtval list \<times> int list)" where
  "build_vectors results gt_data workload =
     (if workload \<in> set [''enron'', ''real-estate''] then
        (case predicted_positives (key_attr_of workload) results of
           Inl e \<Rightarrow> Inl e
         | Inr preds \<Rightarrow> Inr (flat_vectors gt_data preds))
      else if workload = ''medical-schema-matching'' then nested_vectors gt_data results
      else Inr ([], []))"

subsection \<open>The scikit-learn metrics\<close>

text \<open>
  \<^verbatim>\<open>precision_score\<close>, \<^verbatim>\<open>recall_score\<close> and \<^verbatim>\<open>f1_score\<close> belong to
  scikit-learn, not to this repository; they are modelled from that library's documented
  behaviour, with \<^verbatim>\<open>zero_division=0\<close> as the harness calls them. Scores are exact
  rationals. With \<^verbatim>\<open>average='binary'\<close> the positive class is the label 1, and the
  call raises \<^verbatim>\<open>ValueError\<close> when the two vectors hold more than two distinct
  labels, or two distinct labels neither of which is 1. With \<^verbatim>\<open>average='micro'\<close>
  the counts are summed over every label that occurs. A label that is no number (a nested
  dictionary) makes the call raise.
\<close>

fun labels_of :: "gtval list \<Rightarrow> exn + int list" where
  "labels_of [] = Inr []"
| "labels_of (GInt i # vs) = (case labels_of vs of Inl e \<Rightarrow> Inl e | Inr is \<Rightarrow> Inr (i # is))"
| "labels_of (GDict d # vs) = Inl ValueError"

definition count_pairs :: "(int \<Rightarrow> int \<Rightarrow> bool) \<Rightarrow> int list \<Rightarrow> int list \<Rightarrow> nat" where
  "count_pairs P yt yp = length (filter (\<lambda>(t, p). P t p) (zip yt yp))"

definition prf_divide :: "nat \<Rightarrow> nat \<Rightarrow> rat" where
  "prf_divide num den = (if den = 0 then 0 else of_nat num / of_nat den)"

text \<open>The sums \<open>(n_tp, n_pred, n_true)\<close> of the confusion counts.\<close>

definition prf_sums :: "string \<Rightarrow> gtval list \<Rightarrow> int list \<Rightarrow> exn + (nat \<times> nat \<times> nat)" where
  "prf_sums average y_true y_pred =
     (case labels_of y_true of
        Inl e \<Rightarrow> Inl e
      | Inr yt \<Rightarrow>
          (let present = remdups (yt @ y_pred)
           in if average = ''binary'' then
                (if length present > 2 then Inl ValueError
                 else if 1 \<notin> set present \<and> length present \<ge> 2 then Inl ValueError
                 else Inr (count_pairs (\<lambda>t p. t = 1 \<and> p = 1) yt y_pred,
                           count_pairs (\<lambda>t p. p = 1) yt y_pred,
                           count_pairs (\<lambda>t p. t = 1) yt y_pred))
              else if average = ''micro'' then
                Inr (sum_list (map (\<lambda>l. count_pairs (\<lambda>t p. t = l \<and> p = l) yt y_pred) present),
                     sum_list (map (\<lambda>l. count_pairs (\<lambda>t p. p = l) yt y_pred) present),
                     sum_list (map (\<lambda>l. count_pairs (\<lambda>t p. t = l) yt y_pred) present))
              else Inl ValueError))"

definition precision_score :: "string \<Rightarrow> gtval list \<Rightarrow> int list \<Rightarrow> exn + rat" where
  "precision_score average y_true y_pred =
     (case prf_sums average y_true y_pred of
        Inl e \<Rightarrow> Inl e
      | Inr (n_tp, n_pred, n_true) \<Rightarrow> Inr (prf_divide n_tp n_pred))"

definition recall_score :: "string \<Rightarrow> gtval list \<Rightarrow> int list \<Rightarrow> exn + rat" where
  "recall_score average y_true y_pred =
     (case prf_sums average y_true y_pred of
        Inl e \<Rightarrow> Inl e
      | Inr (n_tp, n_pred, n_true) \<Rightarrow> Inr (prf_divide n_tp n_true))"

definition f1_score :: "string \<Rightarrow> gtval list \<Rightarrow> int list \<Rightarrow> exn + rat" where
  "f1_score average y_true y_pred =
     (case prf_sums average y_true y_pred of
        Inl e \<Rightarrow> Inl e
      | Inr (n_tp, n_pred, n_true) \<Rightarrow> Inr (prf_divide (2 * n_tp) (n_true + n_pred)))"

subsection \<open>The evaluator (lines 90-124)\<close>

definition avg_method :: "string \<Rightarrow> string" where
  "avg_method workload = (if workload \<noteq> ''medical-schema-matching'' then ''binary'' else ''micro'')"

definition compute_f1 :: "pyobj list \<Rightarrow> gt_index \<Rightarrow> string \<Rightarrow> exn + rat" where
  "compute_f1 results gt_data workload =
     (if gt_data = [] then Inr 0
      else
        (case build_vectors results gt_data workload of
           Inl e \<Rightarrow> Inl e
         | Inr (y_true, y_pred) \<Rightarrow>
             if y_true = [] then Inr 0
             else
               (case precision_score (avg_method workload) y_true y_pred of
                  Inl e \<Rightarrow> Inl e
                | Inr p \<Rightarrow>
                    (case recall_score (avg_method workload) y_true y_pred of
                       Inl e \<Rightarrow> Inl e
                     | Inr r \<Rightarrow> f1_score (avg_method workload) y_true y_pred))))"

section \<open>write_results_and_plans\<close>

text \<open>
  A run output carries its result records and, possibly, execution statistics. The value
  of \<^verbatim>\<open>es.plan_stats\<close> is \<^verbatim>\<open>None\<close> (or the attribute is missing), a dictionary
  from plan identifier to per-plan stats, or some other true object without a
  \<^verbatim>\<open>values\<close> method. \<open>execution_stats = None\<close> stands for a missing attribute as
  well as for the value \<^verbatim>\<open>None\<close>. The call \<^verbatim>\<open>pd.DataFrame(res)\<close> of line 170
  has an unused result; \<open>frame_error\<close> says whether it raises.

  A per-plan stats entry is an object whose attributes are read by name. Reading an
  attribute gives its value or, for a property, may raise.
\<close>

datatype attr = Val pyval | Raises exn

type_synonym stats_obj = "(string \<times> attr) list"

datatype plan_stats_val = PSNone | PSDict "(string \<times> stats_obj) list" | PSMalformed

record exec_stats =
  plan_stats :: plan_stats_val

record run_output =
  records :: "pyobj list"
  execution_stats :: "exec_stats option"
  frame_error :: "exn option"

record summary_row =
  Workload :: string
  Strategy :: string
  Time_s :: pyval
  Cost :: pyval
  F1_Score :: rat
  Plan_File :: string

text \<open>The effects on the outside, in the order they happen.\<close>

datatype effect =
    Makedirs string
  | WriteText string string
  | WriteCsv string "summary_row list"
  | Print string

text \<open>The effects of the loop over the runs: directories and plan-text files.\<close>

definition plan_effect :: "effect \<Rightarrow> bool" where
  "plan_effect x = (case x of Makedirs p \<Rightarrow> True | WriteText p t \<Rightarrow> True | _ \<Rightarrow> False)"

text \<open>
  The files after the effects: a file is named by its path, and two paths name the same file
  when they are the same string. A write replaces what the file held.
\<close>

datatype content = Text string | Table "summary_row list"

fun apply_effect :: "(string \<Rightarrow> content option) \<Rightarrow> effect \<Rightarrow> (string \<Rightarrow> content option)" where
  "apply_effect files (Makedirs p) = files"
| "apply_effect files (WriteText p t) = files(p \<mapsto> Text t)"
| "apply_effect files (WriteCsv p table) = files(p \<mapsto> Table table)"
| "apply_effect files (Print m) = files"

definition files_after :: "effect list \<Rightarrow> (string \<Rightarrow> content option) \<Rightarrow> (string \<Rightarrow> content option)" where
  "files_after trace files = foldl apply_effect files trace"

text \<open>Which calls into the operating system raise is decided by the environment.\<close>

record io_env =
  makedirs_error :: "string \<Rightarrow> exn option"
  open_error :: "string \<Rightarrow> exn option"
  to_csv_error :: "string \<Rightarrow> exn option"

subsection \<open>Paths\<close>

definition dirname :: "string \<Rightarrow> string" where
  "dirname p =
     (let head = rev (dropWhile (\<lambda>c. c \<noteq> CHR ''/'') (rev p))
      in if head \<noteq> [] \<and> head \<noteq> replicate (length head) (CHR ''/'')
         then rev (dropWhile (\<lambda>c. c = CHR ''/'') (rev head)) else head)"

definition path_join :: "string \<Rightarrow> string \<Rightarrow> string" where
  "path_join a b =
     (if starts_with b ''/'' then b
      else if a = [] \<or> last a = CHR ''/'' then a @ b
      else a @ ''/'' @ b)"

subsection \<open>Cost and time (lines 149-167)\<close>

definition cost_aliases :: "string list" where
  "cost_aliases = [''total_plan_cost'', ''total_cost'', ''cost'', ''plan_cost'']"

definition time_aliases :: "string list" where
  "time_aliases = [''total_plan_time'', ''total_time'', ''time'', ''plan_time'']"

text \<open>
  \<^verbatim>\<open>getattr(obj, name, dflt)\<close>: the default stands in for a missing attribute and for
  a read that raises \<^verbatim>\<open>AttributeError\<close>; any other exception of the read goes on.
\<close>

definition getattr_default :: "stats_obj \<Rightarrow> string \<Rightarrow> pyval \<Rightarrow> exn + pyval" where
  "getattr_default obj name dflt =
     (case map_of obj name of
        None \<Rightarrow> Inr dflt
      | Some (Val v) \<Rightarrow> Inr v
      | Some (Raises e) \<Rightarrow> if e = AttributeError then Inr dflt else Inl e)"

text \<open>
  The \<^verbatim>\<open>for\<close> loop with \<^verbatim>\<open>break\<close>: \<open>cur\<close> is the variable the loop may assign;
  the loop gives its new value, or the exception that ended it.
\<close>

fun probe :: "stats_obj \<Rightarrow> string list \<Rightarrow> pyval \<Rightarrow> exn + pyval" where
  "probe first_ps [] cur = Inr cur"
| "probe first_ps (a # as) cur =
     (case getattr_default first_ps a VNone of
        Inl e \<Rightarrow> Inl e
      | Inr val \<Rightarrow> if val \<noteq> VNone then Inr val else probe first_ps as cur)"

text \<open>
  The body of the \<^verbatim>\<open>try\<close>: the exception it ends with, if any, and the values of
  \<open>(cost, time_sec)\<close> at that moment. An exception of the second loop comes after the
  assignment to \<open>cost\<close>.
\<close>

definition cost_time_body :: "run_output \<Rightarrow> pyval \<times> pyval \<Rightarrow> exn option \<times> (pyval \<times> pyval)" where
  "cost_time_body res ct =
     (case execution_stats res of
        None \<Rightarrow> (None, ct)
      | Some es \<Rightarrow>
          (case plan_stats es of
             PSNone \<Rightarrow> (None, ct)
           | PSMalformed \<Rightarrow> (Some AttributeError, ct)
           | PSDict [] \<Rightarrow> (None, ct)
           | PSDict ((pid, first_ps) # _) \<Rightarrow>
               (case probe first_ps cost_aliases (fst ct) of
                  Inl e \<Rightarrow> (Some e, ct)
                | Inr cost \<Rightarrow>
                    (case probe first_ps time_aliases (snd ct) of
                       Inl e \<Rightarrow> (Some e, (cost, snd ct))
                     | Inr time_sec \<Rightarrow> (None, (cost, time_sec))))))"

text \<open>\<^verbatim>\<open>except Exception: pass\<close> drops the exception and keeps the variables.\<close>

definition cost_time :: "run_output \<Rightarrow> pyval \<times> pyval" where
  "cost_time res = snd (cost_time_body res (VFloat 0, VFloat 0))"

subsection \<open>Plan text (lines 174-185)\<close>

definition plan_text_of :: "run_output \<Rightarrow> exn + pyval" where
  "plan_text_of res =
     (case execution_stats res of
        None \<Rightarrow> Inl AttributeError
      | Some exec_stats \<Rightarrow>
          (case plan_stats exec_stats of
             PSNone \<Rightarrow> Inl AttributeError
           | PSMalformed \<Rightarrow> Inl AttributeError
           | PSDict [] \<Rightarrow> Inl IndexError
           | PSDict ((pid, stats) # _) \<Rightarrow>
               (case map_of stats ''plan_str'' of
                  None \<Rightarrow> Inl AttributeError
                | Some (Raises e) \<Rightarrow> Inl e
                | Some (Val plan_texts) \<Rightarrow> Inr plan_texts)))"

text \<open>
  Opening the file for writing truncates it; \<^verbatim>\<open>f.write\<close> of a value that is no
  string raises \<^verbatim>\<open>TypeError\<close>, which is swallowed like a failing \<^verbatim>\<open>open\<close>.
\<close>

definition write_plan_file :: "io_env \<Rightarrow> string \<Rightarrow> pyval \<Rightarrow> effect list" where
  "write_plan_file io plan_file plan_texts =
     (case open_error io plan_file of
        Some e \<Rightarrow> []
      | None \<Rightarrow> (case plan_texts of
                   VStr s \<Rightarrow> [WriteText plan_file s]
                 | _ \<Rightarrow> [WriteText plan_file []]))"

subsection \<open>One run, the loop, the report\<close>

definition process_run ::
  "io_env \<Rightarrow> gt_index \<Rightarrow> string \<Rightarrow> string \<Rightarrow> nat \<Rightarrow> run_output \<Rightarrow> exn + (summary_row \<times> effect list)" where
  "process_run io gt_data plan_details_dir workload idx res =
     (let (cost, time_sec) = cost_time res
      in case frame_error res of
           Some e \<Rightarrow> Inl e
         | None \<Rightarrow>
             (case compute_f1 (records res) gt_data workload of
                Inl e \<Rightarrow> Inl e
              | Inr f1 \<Rightarrow>
                  (case plan_text_of res of
                     Inl e \<Rightarrow> Inl e
                   | Inr plan_texts \<Rightarrow>
                       (let plan_file = path_join plan_details_dir (str_nat idx @ ''.txt'')
                        in Inr (\<lparr>Workload = workload,
                                 Strategy = ''Plan-'' @ str_nat idx,
                                 Time_s = time_sec,
                                 Cost = cost,
                                 F1_Score = f1,
                                 Plan_File = str_nat idx @ ''.txt''\<rparr>,
                                write_plan_file io plan_file plan_texts)))))"

text \<open>
  The loop of line 147 over \<^verbatim>\<open>enumerate(results, start=1)\<close>. An exception leaves the
  loop with the rows and effects accumulated so far.
\<close>

fun process_runs ::
  "io_env \<Rightarrow> gt_index \<Rightarrow> string \<Rightarrow> string \<Rightarrow> nat \<Rightarrow> run_output list \<Rightarrow>
   summary_row list \<Rightarrow> effect list \<Rightarrow> exn option \<times> summary_row list \<times> effect list" where
  "process_runs io gt_data plan_details_dir workload idx [] all_results trace =
     (None, all_results, trace)"
| "process_runs io gt_data plan_details_dir workload idx (res # rest) all_results trace =
     (case process_run io gt_data plan_details_dir workload idx res of
        Inl e \<Rightarrow> (Some e, all_results, trace)
      | Inr (row, effs) \<Rightarrow>
          process_runs io gt_data plan_details_dir workload (Suc idx) rest
            (all_results @ [row]) (trace @ effs))"

text \<open>
  \<^verbatim>\<open>list(results_iterable)\<close>, with a value that cannot be iterated wrapped into a
  one-element list. The parameter \<^verbatim>\<open>logical_plan\<close> is never read and is left out.
  The result is the exception raised to the caller, if any, the rows the list
  \<^verbatim>\<open>all_results\<close> holds when the function is left (one per run whose loop body was
  completed), and the effects performed.
\<close>

datatype runs_input = Iterable "run_output list" | Single run_output

definition materialize :: "runs_input \<Rightarrow> run_output list" where
  "materialize results_iterable = (case results_iterable of Iterable rs \<Rightarrow> rs | Single r \<Rightarrow> [r])"

definition write_results_and_plans ::
  "io_env \<Rightarrow> runs_input \<Rightarrow> gt_index \<Rightarrow> string \<Rightarrow> string \<Rightarrow> string \<Rightarrow>
   exn option \<times> summary_row list \<times> effect list" where
  "write_results_and_plans io results_iterable gt_data output_csv plan_details_dir workload =
     (let out_dir = (if dirname output_csv = [] then ''.'' else dirname output_csv)
      in case makedirs_error io out_dir of
           Some e \<Rightarrow> (Some e, [], [])
         | None \<Rightarrow>
             (case makedirs_error io plan_details_dir of
                Some e \<Rightarrow> (Some e, [], [Makedirs out_dir])
              | None \<Rightarrow>
                  (let results = materialize results_iterable
                   in case process_runs io gt_data plan_details_dir workload 1 results []
                             [Makedirs out_dir, Makedirs plan_details_dir] of
                        (Some e, all_results, trace) \<Rightarrow> (Some e, all_results, trace)
                      | (None, all_results, trace) \<Rightarrow>
                          (case to_csv_error io output_csv of
                             Some e \<Rightarrow> (Some e, all_results, trace)
                           | None \<Rightarrow>
                               (None, all_results, trace @
                                  [WriteCsv output_csv all_results,
                                   Print (''Saved results to '' @ output_csv),
                                   Print (''Plan details saved in '' @ plan_details_dir)])))))"

section \<open>Inputs the claims speak about\<close>

text \<open>
  A run output whose plan text cannot be read: its execution statistics are missing, or the
  plan-stats mapping is missing, empty or no mapping at all, or the first per-plan stats
  entry has no \<^verbatim>\<open>plan_str\<close> attribute, or reading that attribute raises. An
  attribute that is present and holds \<^verbatim>\<open>None\<close> can be read.
\<close>

definition lacks_plan_text :: "run_output \<Rightarrow> bool" where
  "lacks_plan_text res =
     (case execution_stats res of
        None \<Rightarrow> True
      | Some es \<Rightarrow>
          (case plan_stats es of
             PSDict [] \<Rightarrow> True
           | PSDict ((pid, stats) # _) \<Rightarrow>
               (case map_of stats ''plan_str'' of
                  None \<Rightarrow> True
                | Some (Raises e) \<Rightarrow> True
                | Some (Val v) \<Rightarrow> False)
           | _ \<Rightarrow> True))"

section \<open>Concrete inputs\<close>

text \<open>
  For the concrete file systems, a text for a Series in the manner of pandas: one line per
  cell, then the number of the row and the type.
\<close>

definition series_repr :: "nat \<Rightarrow> string \<Rightarrow> cell list \<Rightarrow> string" where
  "series_repr i name vs =
     concat (map (\<lambda>v. name @ ''    '' @ py_str v @ [CHR 0x0A]) vs) @
     ''Name: '' @ str_nat i @ '', dtype: object''"

text \<open>
  File systems in which every path exists. The labeled file of \<open>env_upper\<close> has the
  columns \<^verbatim>\<open>" Filename "\<close>, \<^verbatim>\<open>"Label"\<close> and the row \<^verbatim>\<open>(" Report.TXT ", 1)\<close>.
\<close>

definition env_upper :: fs_env where
  "env_upper =
     \<lparr>path_exists = (\<lambda>p. True),
      read_csv = (\<lambda>p. Inr \<lparr>columns = ['' Filename '', ''Label''],
                              rows = [[CStr '' Report.TXT '', CInt 1]]\<rparr>),
      listdir = (\<lambda>p. Inr [''Report.TXT'']),
      series_text = series_repr\<rparr>"

text \<open>
  A wide table for the nested workload: the attribute column and one source column, with
  the cells \<^verbatim>\<open>1\<close>, \<^verbatim>\<open>" Missing "\<close>, \<^verbatim>\<open>"MISSING"\<close> and an empty field.
\<close>

definition env_medical :: fs_env where
  "env_medical =
     \<lparr>path_exists = (\<lambda>p. True),
      read_csv = (\<lambda>p. Inr \<lparr>columns = [''target_attribute'', '' SourceA ''],
                              rows = [[CStr ''age'', CInt 1],
                                      [CStr ''name'', CStr '' Missing ''],
                                      [CStr ''dob'', CStr ''MISSING''],
                                      [CStr ''sex'', CNaN]]\<rparr>),
      listdir = (\<lambda>p. Inr []),
      series_text = series_repr\<rparr>"

text \<open>A wide table in which two rows name the same attribute.\<close>

definition env_same_attribute :: fs_env where
  "env_same_attribute =
     \<lparr>path_exists = (\<lambda>p. True),
      read_csv = (\<lambda>p. Inr \<lparr>columns = [''target_attribute'', ''sourceA''],
                              rows = [[CStr ''age'', CStr ''missing''],
                                      [CStr ''age'', CInt 1]]\<rparr>),
      listdir = (\<lambda>p. Inr []),
      series_text = series_repr\<rparr>"

text \<open>
  The wide table \<^verbatim>\<open>target_attribute, sourceA\<close> with the rows \<^verbatim>\<open>(age, 1)\<close>,
  \<^verbatim>\<open>(name, missing)\<close>, in a file system where only the labeled file exists: there is
  no reference directory.
\<close>

definition env_medical_no_dir :: fs_env where
  "env_medical_no_dir =
     \<lparr>path_exists = (\<lambda>p. p = ''gt.csv''),
      read_csv = (\<lambda>p. Inr \<lparr>columns = [''target_attribute'', ''sourceA''],
                              rows = [[CStr ''age'', CInt 1],
                                      [CStr ''name'', CStr ''missing'']]\<rparr>),
      listdir = (\<lambda>p. Inl OSError),
      series_text = series_repr\<rparr>"

text \<open>A labeled file whose label column holds the text \<^verbatim>\<open>yes\<close>.\<close>

definition env_text_label :: fs_env where
  "env_text_label =
     \<lparr>path_exists = (\<lambda>p. True),
      read_csv = (\<lambda>p. Inr \<lparr>columns = [''listing'', ''label''],
                              rows = [[CStr ''house1'', CStr ''yes'']]\<rparr>),
      listdir = (\<lambda>p. Inr [''house1'']),
      series_text = series_repr\<rparr>"


text \<open>A file system without the labeled file and without the reference directory.\<close>

definition env_missing :: fs_env where
  "env_missing =
     \<lparr>path_exists = (\<lambda>p. False), read_csv = (\<lambda>p. Inl OSError), listdir = (\<lambda>p. Inl OSError),
      series_text = series_repr\<rparr>"

text \<open>
  The labeled file \<^verbatim>\<open>gt.csv\<close> with columns \<^verbatim>\<open>filename,label\<close> and the rows
  \<^verbatim>\<open>(a.txt,1)\<close>, \<^verbatim>\<open>(b.txt,0)\<close>; the reference directory does not exist.
\<close>

definition env_no_dir :: fs_env where
  "env_no_dir =
     \<lparr>path_exists = (\<lambda>p. p = ''gt.csv''),
      read_csv = (\<lambda>p. Inr \<lparr>columns = [''filename'', ''label''],
                              rows = [[CStr ''a.txt'', CInt 1], [CStr ''b.txt'', CInt 0]]\<rparr>),
      listdir = (\<lambda>p. Inl OSError),
      series_text = series_repr\<rparr>"

text \<open>An operating system on which no call raises.\<close>

definition io_ok :: io_env where
  "io_ok = \<lparr>makedirs_error = (\<lambda>p. None), open_error = (\<lambda>p. None), to_csv_error = (\<lambda>p. None)\<rparr>"

text \<open>
  A run whose first per-plan stats entry has no \<^verbatim>\<open>total_plan_cost\<close>, a
  \<^verbatim>\<open>total_cost\<close> of \<^verbatim>\<open>None\<close>, a \<^verbatim>\<open>cost\<close> of 2 and a
  \<^verbatim>\<open>plan_cost\<close> of 5, no time attribute, and the plan text \<^verbatim>\<open>scan\<close>.
\<close>

definition run_good :: run_output where
  "run_good =
     \<lparr>records = [[(''filename'', VStr ''a.txt'')]],
      execution_stats =
        Some \<lparr>plan_stats =
                PSDict [(''p1'', [(''total_cost'', Val VNone), (''cost'', Val (VFloat 2)),
                                  (''plan_cost'', Val (VFloat 5)),
                                  (''plan_str'', Val (VStr ''scan''))]),
                        (''p2'', [(''cost'', Val (VFloat 7))])]\<rparr>,
      frame_error = None\<rparr>"

text \<open>A run without execution statistics, and one whose plan stats are no mapping.\<close>

definition run_no_stats :: run_output where
  "run_no_stats = \<lparr>records = [], execution_stats = None, frame_error = None\<rparr>"

definition run_malformed :: run_output where
  "run_malformed =
     \<lparr>records = [], execution_stats = Some \<lparr>plan_stats = PSMalformed\<rparr>, frame_error = None\<rparr>"

text \<open>
  A run whose first per-plan stats entry has a \<^verbatim>\<open>total_plan_cost\<close> of 5 and a
  property \<^verbatim>\<open>total_plan_time\<close> that raises \<^verbatim>\<open>ValueError\<close> when read.
\<close>

definition run_time_raises :: run_output where
  "run_time_raises =
     \<lparr>records = [[(''filename'', VStr ''a.txt'')]],
      execution_stats =
        Some \<lparr>plan_stats =
                PSDict [(''p1'', [(''total_plan_cost'', Val (VFloat 5)),
                                  (''total_plan_time'', Raises ValueError),
                                  (''plan_str'', Val (VStr ''scan''))])]\<rparr>,
      frame_error = None\<rparr>"

text \<open>A run whose first per-plan stats entry has the attribute \<^verbatim>\<open>plan_str = None\<close>.\<close>

definition run_none_text :: run_output where
  "run_none_text =
     \<lparr>records = [[(''filename'', VStr ''a.txt'')]],
      execution_stats =
        Some \<lparr>plan_stats = PSDict [(''p1'', [(''plan_str'', Val VNone)])]\<rparr>,
      frame_error = None\<rparr>"

section \<open>Auxiliary facts about trimming and lower-casing\<close>

lemma rtrim_prefix:
  "rev (dropWhile P (rev xs)) @ rev (takeWhile P (rev xs)) = xs"
proof -
  have "rev (takeWhile P (rev xs) @ dropWhile P (rev xs)) = xs" by simp
  then show ?thesis by (simp only: rev_append)
qed

lemma strip_idem: "strip (strip s) = strip s"
proof -
  let ?d = "dropWhile is_space"
  let ?t = "?d s"
  let ?u = "rev (?d (rev ?t))"
  have u: "strip s = ?u" by (simp add: strip_def)
  have front: "?d ?u = ?u"
  proof (cases "?u = []")
    case True
    show ?thesis by (simp only: True dropWhile.simps)
  next
    case False
    have t: "?t \<noteq> []"
    proof
      assume e: "?t = []"
      have "?u = []" by (simp only: e rev.simps dropWhile.simps)
      with False show False by contradiction
    qed
    have "?t = ?u @ rev (takeWhile is_space (rev ?t))"
      using rtrim_prefix [of is_space ?t] by simp
    then have "hd ?t = hd (?u @ rev (takeWhile is_space (rev ?t)))" by simp
    also have "\<dots> = hd ?u" using False by (rule hd_append2)
    finally have "hd ?u = hd ?t" by simp
    moreover have "\<not> is_space (hd ?t)" using t by (rule hd_dropWhile)
    ultimately have "\<not> is_space (hd ?u)" by simp
    then show ?thesis by (simp add: dropWhile_eq_self_iff)
  qed
  have rear: "?d (rev ?u) = rev ?u" by simp
  have "strip ?u = rev (?d (rev (?d ?u)))" by (simp only: strip_def)
  also have "\<dots> = rev (?d (rev ?u))" by (simp only: front)
  also have "\<dots> = ?u" by simp
  finally show ?thesis by (simp only: u)
qed

lemma lower_letters_disjoint: "set lower_letters \<inter> set upper_letters = {}"
  by (simp add: lower_letters_def upper_letters_def)

lemma lower_char_cases:
  "lower_char c = c \<and> c \<notin> set upper_letters \<or> lower_char c \<in> set lower_letters \<and> c \<in> set upper_letters"
proof (cases "map_of (zip upper_letters lower_letters) c")
  case None
  have "length upper_letters = length lower_letters"
    by (simp add: upper_letters_def lower_letters_def)
  with None have "c \<notin> set upper_letters"
    by simp
  with None show ?thesis by (simp add: lower_char_def)
next
  case (Some d)
  then have "(c, d) \<in> set (zip upper_letters lower_letters)" by (rule map_of_SomeD)
  then have "c \<in> set upper_letters" "d \<in> set lower_letters"
    by (auto dest: set_zip_leftD set_zip_rightD)
  with Some show ?thesis by (simp add: lower_char_def)
qed

lemma lower_char_idem: "lower_char (lower_char c) = lower_char c"
proof -
  from lower_char_cases [of c] consider "lower_char c = c" | "lower_char c \<in> set lower_letters"
    by blast
  then show ?thesis
  proof cases
    case 1
    then show ?thesis by simp
  next
    case 2
    with lower_letters_disjoint have "lower_char c \<notin> set upper_letters" by blast
    with lower_char_cases [of "lower_char c"] show ?thesis by blast
  qed
qed

lemma letters_not_space:
  "set lower_letters \<inter> set whitespace = {}" "set upper_letters \<inter> set whitespace = {}"
  by (simp_all add: lower_letters_def upper_letters_def whitespace_def)

lemma is_space_lower_char: "is_space (lower_char c) = is_space c"
  using lower_char_cases [of c] letters_not_space
  by (auto simp: is_space_def)

lemma lower_idem: "lower (lower s) = lower s"
  by (simp add: lower_def lower_char_idem)

lemma dropWhile_space_lower:
  "dropWhile is_space (lower s) = lower (dropWhile is_space s)"
  by (induction s) (auto simp: lower_def is_space_lower_char)

lemma lower_rev: "lower (rev s) = rev (lower s)"
  by (simp add: lower_def rev_map)

lemma strip_lower: "strip (lower s) = lower (strip s)"
  by (simp add: strip_def dropWhile_space_lower lower_rev [symmetric])

lemma source_key_normal:
  "strip (strip (lower a)) = strip (lower a)" "lower (strip (lower a)) = strip (lower a)"
  by (simp_all add: strip_idem strip_lower [symmetric] lower_idem)

section \<open>Auxiliary facts about the loader\<close>

lemma enron_rows_no_files:
  "enron_rows env cols [] i rws gt = Inr gt' \<Longrightarrow> gt' = gt"
  by (induction rws arbitrary: gt i) (auto simp: enron_row_def split: sum.splits)

lemma enron_fname_total:
  "row \<noteq> [] \<Longrightarrow> \<exists>f. enron_fname env cols i row = Inr f"
  by (cases row) (auto simp: enron_fname_def Let_def split: option.splits list.splits)

lemma enron_rows_total_no_files:
  "[] \<notin> set rws \<Longrightarrow> enron_rows env cols [] i rws gt = Inr gt"
proof (induction rws arbitrary: i)
  case Nil
  then show ?case by simp
next
  case (Cons row rest)
  then have "row \<noteq> []" by auto
  from enron_fname_total [OF this, of env cols i]
  obtain f where "enron_fname env cols i row = Inr f" by blast
  then have "enron_row env cols [] i row gt = Inr gt"
    by (simp add: enron_row_def)
  with Cons show ?case by simp
qed

lemma real_estate_rows_no_listings:
  "real_estate_rows env cols [] i rws gt = Inr gt' \<Longrightarrow> gt' = gt"
proof (induction rws arbitrary: gt i)
  case Nil
  then show ?case by simp
next
  case (Cons row rest)
  show ?case
  proof (cases "real_estate_row env cols [] i row gt")
    case (Inl e)
    with Cons.prems show ?thesis by simp
  next
    case (Inr step)
    have same: "step = None \<or> step = Some gt"
      using Inr
      by (auto simp: real_estate_row_def Let_def split: option.splits if_splits sum.splits)
    then show ?thesis
      using Cons.prems Inr Cons.IH by (cases step) auto
  qed
qed


subsection \<open>The loader on the concrete inputs\<close>

lemma load_env_upper:
  "load_ground_truth env_upper ''enron'' ''gt.csv'' ''data'' = Inr [(''Report.TXT'', GInt 1)]"
  "load_ground_truth env_upper ''real-estate'' ''gt.csv'' ''data'' = Inr [(''Report.TXT'', GInt 1)]"
  by (simp_all add: load_ground_truth_def normalize_columns_def env_upper_def actual_entries_def
        enron_row_def enron_fname_def enron_label_def real_estate_row_def row_lookup_def
        strip_def is_space_def whitespace_def lower_def lower_char_def upper_letters_def
        lower_letters_def)

lemma load_env_medical:
  "load_ground_truth env_medical ''medical-schema-matching'' ''gt.csv'' ''data'' =
     Inr [(''sourcea'', GDict [(''age'', True), (''name'', True), (''dob'', False), (''sex'', False)])]"
  by (simp add: load_ground_truth_def normalize_columns_def env_medical_def medical_row_def
        medical_entry_def should_exist_def row_lookup_def strip_def is_space_def whitespace_def
        lower_def lower_char_def upper_letters_def lower_letters_def str_int_def str_nat.simps
        digit_char_def)

lemma load_env_same_attribute:
  "load_ground_truth env_same_attribute ''medical-schema-matching'' ''gt.csv'' ''data'' =
     Inr [(''sourcea'', GDict [(''age'', True)])]"
  by (simp add: load_ground_truth_def normalize_columns_def env_same_attribute_def
        medical_row_def medical_entry_def should_exist_def row_lookup_def strip_def is_space_def
        whitespace_def lower_def lower_char_def upper_letters_def lower_letters_def str_int_def
        str_nat.simps digit_char_def)

lemma load_env_medical_no_dir:
  "load_ground_truth env_medical_no_dir ''medical-schema-matching'' ''gt.csv'' ''data'' =
     Inr [(''sourcea'', GDict [(''age'', True), (''name'', False)])]"
  by (simp add: load_ground_truth_def normalize_columns_def env_medical_no_dir_def
        medical_row_def medical_entry_def should_exist_def row_lookup_def strip_def is_space_def
        whitespace_def lower_def lower_char_def upper_letters_def lower_letters_def str_int_def
        str_nat.simps digit_char_def)

lemma load_env_text_label:
  "load_ground_truth env_text_label ''real-estate'' ''gt.csv'' ''listings'' = Inl ValueError"
  by (simp add: load_ground_truth_def normalize_columns_def env_text_label_def
        actual_entries_def real_estate_row_def row_lookup_def strip_def is_space_def
        whitespace_def lower_def lower_char_def upper_letters_def lower_letters_def
        int_of_string_def digit_val_def)

lemma load_env_text_label_enron:
  "load_ground_truth env_text_label ''enron'' ''gt.csv'' ''listings'' = Inr [(''house1'', GInt 1)]"
  by (simp add: load_ground_truth_def normalize_columns_def env_text_label_def
        actual_entries_def enron_row_def enron_fname_def enron_label_def row_lookup_def strip_def
        is_space_def whitespace_def lower_def lower_char_def upper_letters_def
        lower_letters_def int_of_string_def digit_val_def)


lemma load_env_no_dir:
  "load_ground_truth env_no_dir ''enron'' ''gt.csv'' ''data'' = Inr []"
  by (simp add: load_ground_truth_def normalize_columns_def env_no_dir_def actual_entries_def
        enron_row_def enron_fname_def enron_label_def row_lookup_def strip_def is_space_def
        whitespace_def lower_def lower_char_def upper_letters_def lower_letters_def)

section \<open>Auxiliary facts about the index built by the loader\<close>

lemma strip_Nil: "strip [] = []"
  by (simp add: strip_def)

lemma dict_set_keys: "fst ` set (dict_set d k v) = insert k (fst ` set d)"
  by (induction d k v rule: dict_set.induct) auto

lemma dict_set_entries: "set (dict_set d k v) \<subseteq> insert (k, v) (set d)"
  by (induction d k v rule: dict_set.induct) auto

lemma map_of_dict_set:
  "map_of (dict_set d k v) k' = (if k' = k then Some v else map_of d k')"
  by (induction d k v rule: dict_set.induct) auto

lemma enron_fname_origin:
  assumes "enron_fname env cols i row = Inr f"
  shows "(\<exists>cand l. find (\<lambda>c. c \<in> set cols) [''filename'', ''file'', ''name''] = Some cand \<and>
                   row_lookup cols row cand = Some l \<and> f = strip (looked_str env i cand l)) \<or>
         (row \<noteq> [] \<and> f = strip (py_str (hd row)))"
proof (cases "find (\<lambda>c. c \<in> set cols) [''filename'', ''file'', ''name'']")
  case None
  with assms show ?thesis
    by (cases row) (simp_all add: enron_fname_def)
next
  case (Some cand)
  show ?thesis
  proof (cases "row_lookup cols row cand")
    case None
    with Some assms show ?thesis
      by (cases row) (simp_all add: enron_fname_def strip_Nil)
  next
    case (Some l)
    note l = this
    show ?thesis
    proof (cases "strip (looked_str env i cand l)")
      case Nil
      with l \<open>find (\<lambda>c. c \<in> set cols) [''filename'', ''file'', ''name''] = Some cand\<close> assms
      show ?thesis
        by (cases row) (simp_all add: enron_fname_def)
    next
      case (Cons c cs)
      with l \<open>find (\<lambda>c. c \<in> set cols) [''filename'', ''file'', ''name''] = Some cand\<close> assms
      have "f = strip (looked_str env i cand l)"
        by (simp add: enron_fname_def)
      with l \<open>find (\<lambda>c. c \<in> set cols) [''filename'', ''file'', ''name''] = Some cand\<close>
      show ?thesis by blast
    qed
  qed
qed

lemma enron_rows_origin:
  "enron_rows env cols actual i rws gt = Inr gt' \<Longrightarrow> (k, v) \<in> set gt' \<Longrightarrow>
   (k, v) \<in> set gt \<or>
   (\<exists>j<length rws. \<exists>label. v = GInt label \<and> k \<in> set actual \<and>
      ((\<exists>cand l. find (\<lambda>c. c \<in> set cols) [''filename'', ''file'', ''name''] = Some cand \<and>
                 row_lookup cols (rws ! j) cand = Some l \<and>
                 k = strip (looked_str env (i + j) cand l)) \<or>
       (rws ! j \<noteq> [] \<and> k = strip (py_str (hd (rws ! j))))))"
proof (induction rws arbitrary: i gt)
  case Nil
  then show ?case by simp
next
  case (Cons row rest)
  from Cons.prems(1) obtain gt1 where step: "enron_row env cols actual i row gt = Inr gt1"
    and rec: "enron_rows env cols actual (Suc i) rest gt1 = Inr gt'"
    by (auto split: sum.splits)
  from step obtain f where f: "enron_fname env cols i row = Inr f"
    and gt1: "gt1 = (if f \<in> set actual then dict_set gt f (GInt (enron_label cols row)) else gt)"
    by (auto simp: enron_row_def Let_def split: sum.splits)
  from Cons.IH [OF rec Cons.prems(2)]
  consider (before) "(k, v) \<in> set gt1"
    | (later) j label where "j < length rest" "v = GInt label" "k \<in> set actual"
        "(\<exists>cand l. find (\<lambda>c. c \<in> set cols) [''filename'', ''file'', ''name''] = Some cand \<and>
                 row_lookup cols (rest ! j) cand = Some l \<and>
                 k = strip (looked_str env (Suc i + j) cand l)) \<or>
         (rest ! j \<noteq> [] \<and> k = strip (py_str (hd (rest ! j))))"
    by blast
  then show ?case
  proof cases
    case before
    show ?thesis
    proof (cases "(k, v) \<in> set gt")
      case True
      then show ?thesis by simp
    next
      case False
      with before gt1 dict_set_entries [of gt f "GInt (enron_label cols row)"]
      have here: "f \<in> set actual" "k = f" "v = GInt (enron_label cols row)"
        by (auto split: if_splits)
      have "0 < length (row # rest)" by simp
      moreover have "v = GInt (enron_label cols row)" by (rule here(3))
      moreover have "k \<in> set actual" using here by simp
      moreover have
        "(\<exists>cand l. find (\<lambda>c. c \<in> set cols) [''filename'', ''file'', ''name''] = Some cand \<and>
                 row_lookup cols ((row # rest) ! 0) cand = Some l \<and>
                 k = strip (looked_str env (i + 0) cand l)) \<or>
         ((row # rest) ! 0 \<noteq> [] \<and> k = strip (py_str (hd ((row # rest) ! 0))))"
        using enron_fname_origin [OF f] here(2) by simp
      ultimately show ?thesis by blast
    qed
  next
    case later
    have "Suc j < length (row # rest)" using later(1) by simp
    moreover have
      "(\<exists>cand l. find (\<lambda>c. c \<in> set cols) [''filename'', ''file'', ''name''] = Some cand \<and>
                 row_lookup cols ((row # rest) ! Suc j) cand = Some l \<and>
                 k = strip (looked_str env (i + Suc j) cand l)) \<or>
       ((row # rest) ! Suc j \<noteq> [] \<and> k = strip (py_str (hd ((row # rest) ! Suc j))))"
      using later(4) by simp
    ultimately show ?thesis using later(2,3) by blast
  qed
qed

lemma real_estate_row_origin:
  assumes "real_estate_row env cols actual i row gt = Inr (Some gt1)" and "(k, v) \<in> set gt1"
  shows "(k, v) \<in> set gt \<or>
         (\<exists>label cand l. v = GInt label \<and> k \<in> set actual \<and>
            find (\<lambda>c. c \<in> set cols) [''listing'', ''filename'', ''id'', ''name''] = Some cand \<and>
            row_lookup cols row cand = Some l \<and> k = strip (looked_str env i cand l))"
proof -
  from assms(1) obtain cand l label where
    c: "find (\<lambda>c. c \<in> set cols) [''listing'', ''filename'', ''id'', ''name''] = Some cand" and
    l: "row_lookup cols row cand = Some l" and
    g: "gt1 = (if strip (looked_str env i cand l) \<in> set actual
               then dict_set gt (strip (looked_str env i cand l)) (GInt label) else gt)"
    by (auto simp: real_estate_row_def Let_def split: option.splits if_splits sum.splits)
  show ?thesis
  proof (cases "(k, v) \<in> set gt")
    case True
    then show ?thesis by simp
  next
    case False
    with assms(2) g dict_set_entries [of gt "strip (looked_str env i cand l)" "GInt label"]
    have "strip (looked_str env i cand l) \<in> set actual" "k = strip (looked_str env i cand l)"
      "v = GInt label"
      by (auto split: if_splits)
    with c l show ?thesis by blast
  qed
qed

lemma real_estate_rows_origin:
  "real_estate_rows env cols actual i rws gt = Inr gt' \<Longrightarrow> (k, v) \<in> set gt' \<Longrightarrow>
   (k, v) \<in> set gt \<or>
   (\<exists>j<length rws. \<exists>label cand l. v = GInt label \<and> k \<in> set actual \<and>
      find (\<lambda>c. c \<in> set cols) [''listing'', ''filename'', ''id'', ''name''] = Some cand \<and>
      row_lookup cols (rws ! j) cand = Some l \<and> k = strip (looked_str env (i + j) cand l))"
proof (induction rws arbitrary: i gt)
  case Nil
  then show ?case by simp
next
  case (Cons row rest)
  obtain gt1 where rec: "real_estate_rows env cols actual (Suc i) rest gt1 = Inr gt'"
    and step: "real_estate_row env cols actual i row gt = Inr None \<and> gt1 = gt \<or>
               real_estate_row env cols actual i row gt = Inr (Some gt1)"
    using Cons.prems(1) by (auto split: sum.splits option.splits)
  from Cons.IH [OF rec Cons.prems(2)]
  consider (before) "(k, v) \<in> set gt1"
    | (later) j label cand l where "j < length rest" "v = GInt label" "k \<in> set actual"
        "find (\<lambda>c. c \<in> set cols) [''listing'', ''filename'', ''id'', ''name''] = Some cand"
        "row_lookup cols (rest ! j) cand = Some l" "k = strip (looked_str env (Suc i + j) cand l)"
    by blast
  then show ?case
  proof cases
    case before
    from step show ?thesis
    proof
      assume "real_estate_row env cols actual i row gt = Inr None \<and> gt1 = gt"
      with before show ?thesis by simp
    next
      assume "real_estate_row env cols actual i row gt = Inr (Some gt1)"
      from real_estate_row_origin [OF this before]
      consider "(k, v) \<in> set gt"
        | label cand l where "v = GInt label" "k \<in> set actual"
            "find (\<lambda>c. c \<in> set cols) [''listing'', ''filename'', ''id'', ''name''] = Some cand"
            "row_lookup cols row cand = Some l" "k = strip (looked_str env i cand l)"
        by blast
      then show ?thesis
      proof cases
        case 1
        then show ?thesis by simp
      next
        case 2
        have "0 < length (row # rest)" by simp
        moreover have "row_lookup cols ((row # rest) ! 0) cand = Some l" using 2(4) by simp
        moreover have "k = strip (looked_str env (i + 0) cand l)" using 2(5) by simp
        ultimately show ?thesis using 2(1,2,3) by blast
      qed
    qed
  next
    case later
    have "Suc j < length (row # rest)" using later(1) by simp
    moreover have "row_lookup cols ((row # rest) ! Suc j) cand = Some l" using later(5) by simp
    moreover have "k = strip (looked_str env (i + Suc j) cand l)" using later(6) by simp
    ultimately show ?thesis using later(2,3,4) by blast
  qed
qed

lemma normalized_column_key:
  assumes "c \<in> set (map (\<lambda>c. lower (strip c)) cs)"
  shows "strip (lower c) = c"
proof -
  from assms obtain x where "c = lower (strip x)" by auto
  then show ?thesis
    by (simp add: lower_idem strip_lower strip_idem)
qed

lemma medical_entry_Inr:
  "medical_entry env cols author i row = Inr (name, flag) \<longleftrightarrow>
   (\<exists>attr oc. row_lookup cols row (hd cols) = Some attr \<and> row_lookup cols row author = Some oc \<and>
      name = strip (looked_str env i (hd cols) attr) \<and>
      flag = should_exist (looked_str env i author oc))"
  by (auto simp: medical_entry_def split: option.splits)

lemma medical_row_step:
  assumes "medical_row env cols author i row inner = Inr inner'" and "cols \<noteq> []"
  shows "\<exists>name flag. medical_entry env cols author i row = Inr (name, flag) \<and>
           inner' = dict_set inner name flag"
  using assms by (auto simp: medical_row_def split: sum.splits)

lemma medical_rows_entries:
  "medical_rows env cols author i rws inner = Inr inner' \<Longrightarrow> cols \<noteq> [] \<Longrightarrow>
   (a, flag) \<in> set inner' \<Longrightarrow>
   (a, flag) \<in> set inner \<or>
   (\<exists>j<length rws. medical_entry env cols author (i + j) (rws ! j) = Inr (a, flag))"
proof (induction rws arbitrary: i inner)
  case Nil
  then show ?case by simp
next
  case (Cons row rest)
  from Cons.prems(1) obtain inner1 where step: "medical_row env cols author i row inner = Inr inner1"
    and rec: "medical_rows env cols author (Suc i) rest inner1 = Inr inner'"
    by (auto split: sum.splits)
  from medical_row_step [OF step Cons.prems(2)] obtain name fl where
    entry: "medical_entry env cols author i row = Inr (name, fl)" and
    inner1: "inner1 = dict_set inner name fl"
    by blast
  from Cons.IH [OF rec Cons.prems(2) Cons.prems(3)]
  consider (before) "(a, flag) \<in> set inner1"
    | (later) j where "j < length rest"
        "medical_entry env cols author (Suc i + j) (rest ! j) = Inr (a, flag)"
    by blast
  then show ?case
  proof cases
    case before
    with inner1 dict_set_entries [of inner name fl]
    have "(a, flag) = (name, fl) \<or> (a, flag) \<in> set inner" by auto
    then show ?thesis
    proof
      assume "(a, flag) = (name, fl)"
      with entry have "medical_entry env cols author (i + 0) ((row # rest) ! 0) = Inr (a, flag)"
        by simp
      moreover have "0 < length (row # rest)" by simp
      ultimately show ?thesis by blast
    next
      assume "(a, flag) \<in> set inner"
      then show ?thesis by simp
    qed
  next
    case later
    have "Suc j < length (row # rest)" using later(1) by simp
    moreover have "medical_entry env cols author (i + Suc j) ((row # rest) ! Suc j) = Inr (a, flag)"
      using later(2) by simp
    ultimately show ?thesis by blast
  qed
qed

text \<open>
  What the inner dictionary holds after the inner loop: every row has an entry; a name that
  no row has keeps what it had; the entry of a row whose name no later row has is there.
\<close>

lemma medical_rows_lookup:
  "medical_rows env cols author i rws inner = Inr inner' \<Longrightarrow> cols \<noteq> [] \<Longrightarrow>
   (\<forall>j<length rws. \<exists>name flag. medical_entry env cols author (i + j) (rws ! j) = Inr (name, flag)) \<and>
   (\<forall>name. (\<forall>j<length rws. \<forall>flag. medical_entry env cols author (i + j) (rws ! j) \<noteq> Inr (name, flag))
        \<longrightarrow> map_of inner' name = map_of inner name) \<and>
   (\<forall>j<length rws. \<forall>name flag.
      medical_entry env cols author (i + j) (rws ! j) = Inr (name, flag) \<and>
      (\<forall>j'. j < j' \<and> j' < length rws \<longrightarrow>
         (\<forall>flag'. medical_entry env cols author (i + j') (rws ! j') \<noteq> Inr (name, flag')))
      \<longrightarrow> map_of inner' name = Some flag)"
proof (induction rws arbitrary: i inner)
  case Nil
  then show ?case by simp
next
  case (Cons row rest)
  let ?E = "\<lambda>k rs j. medical_entry env cols author (k + j) (rs ! j)"
  from Cons.prems(1) obtain inner1 where step: "medical_row env cols author i row inner = Inr inner1"
    and rec: "medical_rows env cols author (Suc i) rest inner1 = Inr inner'"
    by (auto split: sum.splits)
  from medical_row_step [OF step Cons.prems(2)] obtain n0 f0 where
    entry: "medical_entry env cols author i row = Inr (n0, f0)" and
    inner1: "inner1 = dict_set inner n0 f0"
    by blast
  from Cons.IH [OF rec Cons.prems(2)] have
    ih1: "\<And>j. j < length rest \<Longrightarrow> \<exists>name flag. ?E (Suc i) rest j = Inr (name, flag)" and
    ih2: "\<And>name. (\<forall>j<length rest. \<forall>flag. ?E (Suc i) rest j \<noteq> Inr (name, flag))
            \<Longrightarrow> map_of inner' name = map_of inner1 name" and
    ih3: "\<And>j name flag. j < length rest \<Longrightarrow> ?E (Suc i) rest j = Inr (name, flag) \<Longrightarrow>
            (\<forall>j'. j < j' \<and> j' < length rest \<longrightarrow> (\<forall>flag'. ?E (Suc i) rest j' \<noteq> Inr (name, flag')))
            \<Longrightarrow> map_of inner' name = Some flag"
    by blast+
  have shift: "?E i (row # rest) (Suc j) = ?E (Suc i) rest j" for j by simp
  have zero: "?E i (row # rest) 0 = Inr (n0, f0)" using entry by simp
  have p1: "\<exists>name flag. ?E i (row # rest) j = Inr (name, flag)" if "j < length (row # rest)" for j
  proof (cases j)
    case 0
    with zero show ?thesis by blast
  next
    case (Suc j0)
    with that have "j0 < length rest" by simp
    from ih1 [OF this] Suc shift show ?thesis by simp
  qed
  have p2: "map_of inner' name = map_of inner name"
    if none: "\<forall>j<length (row # rest). \<forall>flag. ?E i (row # rest) j \<noteq> Inr (name, flag)" for name
  proof -
    have "\<forall>flag. ?E i (row # rest) 0 \<noteq> Inr (name, flag)" using none by blast
    with zero have ne: "name \<noteq> n0" by auto
    have "\<forall>j<length rest. \<forall>flag. ?E (Suc i) rest j \<noteq> Inr (name, flag)"
    proof (intro allI impI)
      fix j flag
      assume "j < length rest"
      then have "Suc j < length (row # rest)" by simp
      with none have "?E i (row # rest) (Suc j) \<noteq> Inr (name, flag)" by blast
      then show "?E (Suc i) rest j \<noteq> Inr (name, flag)" by simp
    qed
    from ih2 [OF this] have "map_of inner' name = map_of inner1 name" .
    also have "\<dots> = map_of inner name" using ne inner1 by (simp add: map_of_dict_set)
    finally show ?thesis .
  qed
  have p3: "map_of inner' name = Some flag"
    if j: "j < length (row # rest)" and e: "?E i (row # rest) j = Inr (name, flag)"
      and last: "\<forall>j'. j < j' \<and> j' < length (row # rest) \<longrightarrow>
                   (\<forall>flag'. ?E i (row # rest) j' \<noteq> Inr (name, flag'))"
    for j name flag
  proof (cases j)
    case 0
    with e zero have nf: "name = n0" "flag = f0" by simp_all
    have "\<forall>j<length rest. \<forall>flag. ?E (Suc i) rest j \<noteq> Inr (name, flag)"
    proof (intro allI impI)
      fix j' flag'
      assume "j' < length rest"
      then have "j < Suc j' \<and> Suc j' < length (row # rest)" using 0 by simp
      with last have "?E i (row # rest) (Suc j') \<noteq> Inr (name, flag')" by blast
      then show "?E (Suc i) rest j' \<noteq> Inr (name, flag')" by simp
    qed
    from ih2 [OF this] have "map_of inner' name = map_of inner1 name" .
    also have "\<dots> = Some flag" using nf inner1 by (simp add: map_of_dict_set)
    finally show ?thesis .
  next
    case (Suc j0)
    with j have j0: "j0 < length rest" by simp
    from e Suc have e0: "?E (Suc i) rest j0 = Inr (name, flag)" by simp
    have "\<forall>j'. j0 < j' \<and> j' < length rest \<longrightarrow> (\<forall>flag'. ?E (Suc i) rest j' \<noteq> Inr (name, flag'))"
    proof (intro allI impI)
      fix j' flag'
      assume "j0 < j' \<and> j' < length rest"
      then have "j < Suc j' \<and> Suc j' < length (row # rest)" using Suc by simp
      with last have "?E i (row # rest) (Suc j') \<noteq> Inr (name, flag')" by blast
      then show "?E (Suc i) rest j' \<noteq> Inr (name, flag')" by simp
    qed
    from ih3 [OF j0 e0 this] show ?thesis .
  qed
  show ?case
  proof (intro conjI allI impI)
    fix j assume "j < length (row # rest)"
    then show "\<exists>name flag. ?E i (row # rest) j = Inr (name, flag)" by (rule p1)
  next
    fix name
    assume "\<forall>j<length (row # rest). \<forall>flag. ?E i (row # rest) j \<noteq> Inr (name, flag)"
    then show "map_of inner' name = map_of inner name" by (rule p2)
  next
    fix j name flag
    assume j: "j < length (row # rest)"
      and rest: "?E i (row # rest) j = Inr (name, flag) \<and>
           (\<forall>j'. j < j' \<and> j' < length (row # rest) \<longrightarrow>
              (\<forall>flag'. ?E i (row # rest) j' \<noteq> Inr (name, flag')))"
    from rest have e: "?E i (row # rest) j = Inr (name, flag)"
      and last: "\<forall>j'. j < j' \<and> j' < length (row # rest) \<longrightarrow>
              (\<forall>flag'. ?E i (row # rest) j' \<noteq> Inr (name, flag'))"
      by blast+
    from j e last show "map_of inner' name = Some flag" by (rule p3)
  qed
qed

lemma medical_authors_entries:
  "medical_authors env cols rws authors g = Inr g' \<Longrightarrow> (k, v) \<in> set g' \<Longrightarrow>
   (k, v) \<in> set g \<or>
   (\<exists>author\<in>set authors. \<exists>inner. k = strip (lower author) \<and> v = GDict inner \<and>
        medical_rows env cols author 0 rws [] = Inr inner)"
proof (induction authors arbitrary: g)
  case Nil
  then show ?case by simp
next
  case (Cons author rest)
  from Cons.prems(1) obtain inner where inner: "medical_rows env cols author 0 rws [] = Inr inner"
    and rec: "medical_authors env cols rws rest (dict_set g (strip (lower author)) (GDict inner)) = Inr g'"
    by (auto simp: Let_def split: sum.splits)
  from Cons.IH [OF rec Cons.prems(2)]
  consider (here) "(k, v) \<in> set (dict_set g (strip (lower author)) (GDict inner))"
    | (later) author' inner' where "author' \<in> set rest" "k = strip (lower author')"
        "v = GDict inner'" "medical_rows env cols author' 0 rws [] = Inr inner'"
    by blast
  then show ?case
  proof cases
    case here
    with dict_set_entries [of g "strip (lower author)" "GDict inner"]
    have "(k, v) = (strip (lower author), GDict inner) \<or> (k, v) \<in> set g" by auto
    with inner show ?thesis by auto
  next
    case later
    then show ?thesis by auto
  qed
qed

lemma medical_authors_lookup:
  "medical_authors env cols rws authors g = Inr g' \<Longrightarrow>
   \<forall>a\<in>set authors. strip (lower a) = a \<Longrightarrow>
   (\<forall>k. k \<notin> set authors \<longrightarrow> map_of g' k = map_of g k) \<and>
   (\<forall>a\<in>set authors. \<exists>inner. medical_rows env cols a 0 rws [] = Inr inner \<and>
        map_of g' a = Some (GDict inner))"
proof (induction authors arbitrary: g)
  case Nil
  then show ?case by simp
next
  case (Cons author rest)
  from Cons.prems(2) have key: "strip (lower author) = author"
    and keys: "\<forall>a\<in>set rest. strip (lower a) = a" by simp_all
  from Cons.prems(1) key obtain inner where inner: "medical_rows env cols author 0 rws [] = Inr inner"
    and rec: "medical_authors env cols rws rest (dict_set g author (GDict inner)) = Inr g'"
    by (auto simp: Let_def split: sum.splits)
  from Cons.IH [OF rec keys] have
    ih1: "\<And>k. k \<notin> set rest \<Longrightarrow> map_of g' k = map_of (dict_set g author (GDict inner)) k" and
    ih2: "\<And>a. a \<in> set rest \<Longrightarrow> \<exists>inner. medical_rows env cols a 0 rws [] = Inr inner \<and>
                 map_of g' a = Some (GDict inner)"
    by blast+
  have p1: "map_of g' k = map_of g k" if "k \<notin> set (author # rest)" for k
  proof -
    from that have "k \<notin> set rest" "k \<noteq> author" by simp_all
    with ih1 [of k] show ?thesis by (simp add: map_of_dict_set)
  qed
  have p2: "\<exists>inner. medical_rows env cols a 0 rws [] = Inr inner \<and> map_of g' a = Some (GDict inner)"
    if "a \<in> set (author # rest)" for a
  proof (cases "a \<in> set rest")
    case True
    then show ?thesis by (rule ih2)
  next
    case False
    with that have a: "a = author" by simp
    from ih1 [OF False] a have "map_of g' a = Some (GDict inner)"
      by (simp add: map_of_dict_set)
    with inner a show ?thesis by simp
  qed
  from p1 p2 show ?case by blast
qed

lemma row_lookup_present:
  assumes "c \<in> set cols" and "length cols \<le> length row"
  shows "\<exists>l. row_lookup cols row c = Some l"
proof -
  from assms(1) obtain n where n: "n < length cols" "cols ! n = c"
    by (auto simp: in_set_conv_nth)
  with assms(2) have "(c, row ! n) \<in> set (zip cols row)"
    by (auto simp: set_zip)
  then have "(c, row ! n) \<in> set (filter (\<lambda>(c', v). c' = c) (zip cols row))" by simp
  then have "filter (\<lambda>(c', v). c' = c) (zip cols row) \<noteq> []"
    by (metis empty_iff empty_set)
  then have "map snd (filter (\<lambda>(c', v). c' = c) (zip cols row)) \<noteq> []" by simp
  then show ?thesis
    unfolding row_lookup_def
    by (cases "map snd (filter (\<lambda>(c', v). c' = c) (zip cols row))") (auto split: list.splits)
qed

lemma medical_rows_total:
  assumes "cols \<noteq> []" and "author \<in> set cols" and "\<forall>row\<in>set rws. length cols \<le> length row"
  shows "\<exists>inner'. medical_rows env cols author i rws inner = Inr inner'"
  using assms(3)
proof (induction rws arbitrary: i inner)
  case Nil
  then show ?case by simp
next
  case (Cons row rest)
  then have len: "length cols \<le> length row" by simp
  from assms(1) have "hd cols \<in> set cols" by simp
  from row_lookup_present [OF this len] obtain attr where
    a: "row_lookup cols row (hd cols) = Some attr" by blast
  from row_lookup_present [OF assms(2) len] obtain oc where
    b: "row_lookup cols row author = Some oc" by blast
  from a b assms(1) obtain inner1 where "medical_row env cols author i row inner = Inr inner1"
    by (simp add: medical_row_def medical_entry_def)
  moreover from Cons obtain inner' where
    "medical_rows env cols author (Suc i) rest inner1 = Inr inner'"
    by fastforce
  ultimately show ?case by simp
qed

lemma medical_authors_total:
  assumes "\<forall>row\<in>set rws. length cols \<le> length row"
  shows "set authors \<subseteq> set cols \<Longrightarrow> \<exists>g'. medical_authors env cols rws authors g = Inr g'"
proof (induction authors arbitrary: g)
  case Nil
  then show ?case by simp
next
  case (Cons author rest)
  then have a: "author \<in> set cols" and r: "set rest \<subseteq> set cols" by simp_all
  from a have ne: "cols \<noteq> []" by auto
  from medical_rows_total [OF ne a assms, of env 0 "[]"] obtain inner where
    inner: "medical_rows env cols author 0 rws [] = Inr inner" by blast
  from Cons.IH [OF r, of "dict_set g (strip (lower author)) (GDict inner)"] inner
  show ?case by (simp add: Let_def)
qed

lemma predicted_positives_strips:
  "predicted_positives key_attr rs = Inr ps \<Longrightarrow>
   ps = map strip (concat (map (\<lambda>r. case map_of r key_attr of Some (VStr s) \<Rightarrow> [s] | _ \<Rightarrow> []) rs))"
proof (induction rs arbitrary: ps)
  case Nil
  then show ?case by simp
next
  case (Cons r rs)
  show ?case
  proof (cases "map_of r key_attr")
    case None
    with Cons show ?thesis by simp
  next
    case (Some v)
    with Cons.prems obtain s ps' where "v = VStr s" "predicted_positives key_attr rs = Inr ps'"
      "ps = strip s # ps'"
      by (cases v) (auto split: sum.splits)
    with Cons.IH Some show ?thesis by simp
  qed
qed

lemma load_ground_truth_parts:
  assumes "load_ground_truth env workload gt_path dataset_dir = Inr g" and "g \<noteq> []"
  shows "\<exists>df0. gt_path \<noteq> [] \<and> path_exists env gt_path \<and> read_csv env gt_path = Inr df0 \<and>
           (workload = ''enron'' \<and>
              (\<exists>actual. actual_entries env dataset_dir = Inr actual \<and>
                 enron_rows env (map (\<lambda>c. lower (strip c)) (columns df0)) actual 0 (rows df0) []
                   = Inr g) \<or>
            workload = ''real-estate'' \<and>
              (\<exists>actual. actual_entries env dataset_dir = Inr actual \<and>
                 real_estate_rows env (map (\<lambda>c. lower (strip c)) (columns df0)) actual 0
                   (rows df0) [] = Inr g) \<or>
            workload = ''medical-schema-matching'' \<and>
              medical_authors env (map (\<lambda>c. lower (strip c)) (columns df0)) (rows df0)
                (tl (map (\<lambda>c. lower (strip c)) (columns df0))) [] = Inr g)"
proof -
  from assms have present: "gt_path \<noteq> []" "path_exists env gt_path"
    by (auto simp: load_ground_truth_def split: if_splits)
  with assms obtain df0 where df0: "read_csv env gt_path = Inr df0"
    by (cases "read_csv env gt_path") (auto simp: load_ground_truth_def)
  have n: "columns (normalize_columns df0) = map (\<lambda>c. lower (strip c)) (columns df0)"
    "rows (normalize_columns df0) = rows df0"
    by (simp_all add: normalize_columns_def)
  from assms present df0 show ?thesis
    by (auto simp: load_ground_truth_def Let_def n split: if_splits sum.splits)
qed

lemma actual_entries_listing:
  assumes "actual_entries env dataset_dir = Inr actual" and "k \<in> set actual"
  shows "path_exists env dataset_dir \<and> listdir env dataset_dir = Inr actual"
  using assms by (auto simp: actual_entries_def split: if_splits)

section \<open>Auxiliary facts about the evaluator\<close>

lemma labels_of_map_GInt: "labels_of (map GInt xs) = Inr xs"
  by (induction xs) auto

lemma labels_of_Inr_map: "labels_of vs = Inr xs \<Longrightarrow> vs = map GInt xs"
proof (induction vs arbitrary: xs)
  case Nil
  then show ?case by simp
next
  case (Cons v vs)
  then show ?case by (cases v) (auto split: sum.splits)
qed

lemma flat_vectors_length:
  "length (fst (flat_vectors gt ps)) = length gt \<and> length (snd (flat_vectors gt ps)) = length gt"
  by (simp add: flat_vectors_def)

lemma flat_vectors_cong:
  assumes "set ps \<inter> fst ` set gt = set ps' \<inter> fst ` set gt"
  shows "flat_vectors gt ps = flat_vectors gt ps'"
proof -
  have "(k \<in> set ps) = (k \<in> set ps')" if "(k, l) \<in> set gt" for k l
  proof -
    from that have "k \<in> fst ` set gt" by force
    with assms show ?thesis by blast
  qed
  then show ?thesis
    by (auto simp: flat_vectors_def)
qed

lemma flat_vectors_all_predicted:
  assumes "fst ` set gt \<subseteq> set ps"
  shows "snd (flat_vectors gt ps) = replicate (length gt) 1"
proof -
  have "k \<in> set ps" if "(k, l) \<in> set gt" for k l
    using that assms by force
  then have "map (\<lambda>(item_id, label). if item_id \<in> set ps then 1 else 0) gt = map (\<lambda>x. 1::int) gt"
    by (intro map_cong) auto
  then show ?thesis
    by (simp add: flat_vectors_def map_replicate_const)
qed

lemma count_pairs_pred_ones:
  "count_pairs (\<lambda>t p. p = 1) ys (replicate (length ys) 1) = length ys"
  by (induction ys) (auto simp: count_pairs_def)

lemma count_pairs_true_ones:
  "count_pairs (\<lambda>t p. t = 1) ys (replicate (length ys) 1) = length (filter (\<lambda>t. t = 1) ys)"
  by (induction ys) (auto simp: count_pairs_def)

lemma count_pairs_tp_ones:
  "count_pairs (\<lambda>t p. t = 1 \<and> p = 1) ys (replicate (length ys) 1) = length (filter (\<lambda>t. t = 1) ys)"
  by (induction ys) (auto simp: count_pairs_def)

lemma prf_divide_self: "0 < n \<Longrightarrow> prf_divide n n = 1"
  by (simp add: prf_divide_def)

lemma prf_divide_eq_1_iff: "prf_divide a b = 1 \<longleftrightarrow> a = b \<and> 0 < b"
  by (auto simp: prf_divide_def)

lemma filter_length_all: "length (filter P xs) = length xs \<longleftrightarrow> (\<forall>x\<in>set xs. P x)"
  by (metis filter_id_conv nat_less_le length_filter_less filter_True)


lemma compute_f1_flat:
  assumes wl: "workload \<in> {''enron'', ''real-estate''}"
    and preds: "predicted_positives (key_attr_of workload) results = Inr ps"
  shows "build_vectors results gt workload = Inr (flat_vectors gt ps)"
  using wl preds by (auto simp: build_vectors_def)

lemma compute_f1_of_vectors:
  assumes "build_vectors results gt workload = build_vectors results' gt workload"
  shows "compute_f1 results gt workload = compute_f1 results' gt workload"
  using assms by (simp add: compute_f1_def)

section \<open>The flat vectors follow the ground-truth index\<close>

text \<open>
  Claim C10. For the flat workloads (\<^verbatim>\<open>enron\<close>, \<^verbatim>\<open>real-estate\<close>) the two
  vectors are built by going through the entries of the ground-truth index only: both have
  as many entries as the index. A predicted identifier that is no key of the index adds no
  entry and cannot change the score: two result collections whose predicted sets agree on
  the keys of the index give the same vectors and the same score.
\<close>

theorem flat_vectors_follow_ground_truth:
  assumes wl: "workload \<in> {''enron'', ''real-estate''}"
    and preds: "predicted_positives (key_attr_of workload) results = Inr ps"
    and preds': "predicted_positives (key_attr_of workload) results' = Inr ps'"
    and agree: "set ps \<inter> fst ` set gt_data = set ps' \<inter> fst ` set gt_data"
  shows "(\<exists>y_true y_pred. build_vectors results gt_data workload = Inr (y_true, y_pred) \<and>
            length y_true = length gt_data \<and> length y_pred = length gt_data) \<and>
         build_vectors results' gt_data workload = build_vectors results gt_data workload \<and>
         compute_f1 results' gt_data workload = compute_f1 results gt_data workload"
proof -
  have b: "build_vectors results gt_data workload = Inr (flat_vectors gt_data ps)"
    using wl preds by (rule compute_f1_flat)
  have b': "build_vectors results' gt_data workload = Inr (flat_vectors gt_data ps')"
    using wl preds' by (rule compute_f1_flat)
  have same: "flat_vectors gt_data ps = flat_vectors gt_data ps'"
    using agree by (rule flat_vectors_cong)
  have len: "\<exists>y_true y_pred. build_vectors results gt_data workload = Inr (y_true, y_pred) \<and>
            length y_true = length gt_data \<and> length y_pred = length gt_data"
    using b by (simp add: flat_vectors_def)
  have eqv: "build_vectors results' gt_data workload = build_vectors results gt_data workload"
    using b b' same by simp
  from len eqv compute_f1_of_vectors [OF eqv] show ?thesis by blast
qed

theorem flat_vectors_follow_ground_truth_witness:
  "''enron'' \<in> {''enron'', ''real-estate''} \<and>
   predicted_positives (key_attr_of ''enron'') [[(''filename'', VStr ''a.txt'')]]
     = Inr [''a.txt''] \<and>
   predicted_positives (key_attr_of ''enron'')
     [[(''filename'', VStr ''a.txt'')], [(''filename'', VStr '' zzz.txt '')]]
     = Inr [''a.txt'', ''zzz.txt''] \<and>
   set [''a.txt''] \<inter> fst ` set [(''a.txt'', GInt 1), (''b.txt'', GInt 0)]
     = set [''a.txt'', ''zzz.txt''] \<inter> fst ` set [(''a.txt'', GInt 1), (''b.txt'', GInt 0)] \<and>
   build_vectors [[(''filename'', VStr ''a.txt'')], [(''filename'', VStr '' zzz.txt '')]]
      [(''a.txt'', GInt 1), (''b.txt'', GInt 0)] ''enron''
     = build_vectors [[(''filename'', VStr ''a.txt'')]]
         [(''a.txt'', GInt 1), (''b.txt'', GInt 0)] ''enron'' \<and>
   compute_f1 [[(''filename'', VStr ''a.txt'')], [(''filename'', VStr '' zzz.txt '')]]
      [(''a.txt'', GInt 1), (''b.txt'', GInt 0)] ''enron''
     = compute_f1 [[(''filename'', VStr ''a.txt'')]]
         [(''a.txt'', GInt 1), (''b.txt'', GInt 0)] ''enron''"
proof -
  have p1: "predicted_positives (key_attr_of ''enron'') [[(''filename'', VStr ''a.txt'')]]
              = Inr [''a.txt'']"
    by (simp add: key_attr_of_def strip_def is_space_def whitespace_def)
  have p2: "predicted_positives (key_attr_of ''enron'')
              [[(''filename'', VStr ''a.txt'')], [(''filename'', VStr '' zzz.txt '')]]
            = Inr [''a.txt'', ''zzz.txt'']"
    by (simp add: key_attr_of_def strip_def is_space_def whitespace_def)
  have ag: "set [''a.txt''] \<inter> fst ` set [(''a.txt'', GInt 1), (''b.txt'', GInt 0)]
          = set [''a.txt'', ''zzz.txt''] \<inter> fst ` set [(''a.txt'', GInt 1), (''b.txt'', GInt 0)]"
    by auto
  have w: "''enron'' \<in> {''enron'', ''real-estate''}" by simp
  from w p1 p2 ag flat_vectors_follow_ground_truth [OF w p1 p2 ag] show ?thesis by blast
qed

section \<open>Exact match on the flat workloads\<close>

lemma remdups_replicate_same: "0 < n \<Longrightarrow> remdups (replicate n x) = [x]"
proof (induction n)
  case 0
  then show ?case by simp
next
  case (Suc n)
  then show ?case by (cases n) auto
qed

lemma prf_sums_binary_ones:
  assumes "0 < n"
  shows "prf_sums ''binary'' (replicate n (GInt 1)) (replicate n 1) = Inr (n, n, n)"
proof -
  have l: "labels_of (replicate n (GInt 1)) = Inr (replicate n 1)"
    using labels_of_map_GInt [of "replicate n 1"] by simp
  have r: "remdups (replicate n (1::int) @ replicate n 1) = [1]"
    using assms by (simp add: remdups_replicate_same flip: replicate_add)
  have c1: "count_pairs (\<lambda>t p. t = 1 \<and> p = 1) (replicate n 1) (replicate n 1) = n"
    using count_pairs_tp_ones [of "replicate n 1"] by simp
  have c2: "count_pairs (\<lambda>t p. p = 1) (replicate n 1) (replicate n 1) = n"
    using count_pairs_pred_ones [of "replicate n 1"] by simp
  have c3: "count_pairs (\<lambda>t p. t = 1) (replicate n 1) (replicate n 1) = n"
    using count_pairs_true_ones [of "replicate n 1"] by simp
  show ?thesis
    by (simp add: prf_sums_def l r c1 c2 c3)
qed

lemma prf_sums_binary_all_predicted:
  assumes "prf_sums ''binary'' y_true (replicate (length y_true) 1) = Inr x"
  shows "\<exists>ys. y_true = map GInt ys \<and>
           x = (length (filter (\<lambda>t. t = 1) ys), length ys, length (filter (\<lambda>t. t = 1) ys))"
proof -
  from assms obtain ys where l: "labels_of y_true = Inr ys"
    by (auto simp: prf_sums_def split: sum.splits)
  then have y: "y_true = map GInt ys" by (rule labels_of_Inr_map)
  then have len: "length y_true = length ys" by simp
  have "x = (length (filter (\<lambda>t. t = 1) ys), length ys, length (filter (\<lambda>t. t = 1) ys))"
    using assms l unfolding prf_sums_def len
    by (simp add: Let_def count_pairs_tp_ones count_pairs_pred_ones count_pairs_true_ones
             split: if_splits)
  with y show ?thesis by blast
qed

text \<open>
  Claim C6, as amended. For a flat workload and a non-empty index whose keys are exactly
  the predicted identifiers, every predicted entry is a positive prediction. If every label
  stored in the index is 1, precision, recall and F1 are all \<open>1.0\<close>, and so is the
  result of \<open>compute_f1\<close>. The labels matter: the result is \<open>1.0\<close> only if every
  label is 1, since an entry labeled 0 that is predicted counts as a false positive.
\<close>

theorem flat_exact_match_scores:
  assumes wl: "workload \<in> {''enron'', ''real-estate''}"
    and ne: "gt_data \<noteq> []"
    and preds: "predicted_positives (key_attr_of workload) results = Inr ps"
    and exact: "set ps = fst ` set gt_data"
  shows "(snd ` set gt_data \<subseteq> {GInt 1} \<longrightarrow>
           (\<exists>y_true y_pred. build_vectors results gt_data workload = Inr (y_true, y_pred) \<and>
              precision_score ''binary'' y_true y_pred = Inr 1 \<and>
              recall_score ''binary'' y_true y_pred = Inr 1 \<and>
              f1_score ''binary'' y_true y_pred = Inr 1)) \<and>
         (compute_f1 results gt_data workload = Inr 1 \<longleftrightarrow> snd ` set gt_data \<subseteq> {GInt 1})"
proof -
  let ?n = "length gt_data"
  have n: "0 < ?n" using ne by simp
  have avg: "avg_method workload = ''binary''"
    using wl by (auto simp: avg_method_def)
  have yp: "snd (flat_vectors gt_data ps) = replicate ?n 1"
    using exact by (intro flat_vectors_all_predicted) simp
  have yt: "fst (flat_vectors gt_data ps) = map snd gt_data"
    by (simp add: flat_vectors_def)
  have fv: "flat_vectors gt_data ps = (map snd gt_data, replicate ?n 1)"
    using yp by (simp add: flat_vectors_def)
  have bv: "build_vectors results gt_data workload = Inr (map snd gt_data, replicate ?n 1)"
    using compute_f1_flat [OF wl preds, of gt_data] fv by simp
  have cf: "compute_f1 results gt_data workload =
              (case precision_score ''binary'' (map snd gt_data) (replicate ?n 1) of
                 Inl e \<Rightarrow> Inl e
               | Inr p \<Rightarrow>
                   (case recall_score ''binary'' (map snd gt_data) (replicate ?n 1) of
                      Inl e \<Rightarrow> Inl e
                    | Inr r \<Rightarrow> f1_score ''binary'' (map snd gt_data) (replicate ?n 1)))"
    unfolding compute_f1_def bv avg using ne by simp
  have forward: "precision_score ''binary'' (map snd gt_data) (replicate ?n 1) = Inr 1 \<and>
                 recall_score ''binary'' (map snd gt_data) (replicate ?n 1) = Inr 1 \<and>
                 f1_score ''binary'' (map snd gt_data) (replicate ?n 1) = Inr 1"
    if ones: "snd ` set gt_data \<subseteq> {GInt 1}"
  proof -
    have "map snd gt_data = replicate ?n (GInt 1)"
    proof (rule replicate_eqI)
      show "length (map snd gt_data) = ?n" by simp
    next
      fix y assume "y \<in> set (map snd gt_data)"
      with ones show "y = GInt 1" by auto
    qed
    then have sums: "prf_sums ''binary'' (map snd gt_data) (replicate ?n 1) = Inr (?n, ?n, ?n)"
      using prf_sums_binary_ones [OF n] by simp
    show ?thesis
      using n by (simp add: precision_score_def recall_score_def f1_score_def sums prf_divide_def)
  qed
  have backward: "snd ` set gt_data \<subseteq> {GInt 1}"
    if one: "compute_f1 results gt_data workload = Inr 1"
  proof -
    from one cf have f: "f1_score ''binary'' (map snd gt_data) (replicate ?n 1) = Inr 1"
      by (auto split: sum.splits)
    then obtain x where x: "prf_sums ''binary'' (map snd gt_data) (replicate ?n 1) = Inr x"
      by (auto simp: f1_score_def split: sum.splits)
    from prf_sums_binary_all_predicted [of "map snd gt_data" x] x
    obtain ys where ys: "map snd gt_data = map GInt ys"
      and xs: "x = (length (filter (\<lambda>t. t = 1) ys), length ys, length (filter (\<lambda>t. t = 1) ys))"
      by auto
    from f x xs have "prf_divide (2 * length (filter (\<lambda>t. t = 1) ys))
                        (length (filter (\<lambda>t. t = 1) ys) + length ys) = 1"
      by (simp add: f1_score_def)
    then have "length (filter (\<lambda>t. t = 1) ys) = length ys"
      by (simp add: prf_divide_eq_1_iff)
    then have "\<forall>y\<in>set ys. y = 1"
      by (simp add: filter_length_all)
    then have "set (map GInt ys) \<subseteq> {GInt 1}" by auto
    with ys have "set (map snd gt_data) \<subseteq> {GInt 1}" by simp
    then show ?thesis by simp
  qed
  have c1: "compute_f1 results gt_data workload = Inr 1" if "snd ` set gt_data \<subseteq> {GInt 1}"
    using forward [OF that] cf by simp
  have ex: "\<exists>y_true y_pred. build_vectors results gt_data workload = Inr (y_true, y_pred) \<and>
              precision_score ''binary'' y_true y_pred = Inr 1 \<and>
              recall_score ''binary'' y_true y_pred = Inr 1 \<and>
              f1_score ''binary'' y_true y_pred = Inr 1"
    if "snd ` set gt_data \<subseteq> {GInt 1}"
    using forward [OF that] bv by blast
  show ?thesis
  proof (intro conjI impI iffI)
    assume "snd ` set gt_data \<subseteq> {GInt 1}"
    then show "\<exists>y_true y_pred. build_vectors results gt_data workload = Inr (y_true, y_pred) \<and>
              precision_score ''binary'' y_true y_pred = Inr 1 \<and>
              recall_score ''binary'' y_true y_pred = Inr 1 \<and>
              f1_score ''binary'' y_true y_pred = Inr 1"
      by (rule ex)
  next
    assume "compute_f1 results gt_data workload = Inr 1"
    then show "snd ` set gt_data \<subseteq> {GInt 1}" by (rule backward)
  next
    assume "snd ` set gt_data \<subseteq> {GInt 1}"
    then show "compute_f1 results gt_data workload = Inr 1" by (rule c1)
  qed
qed

theorem flat_exact_match_scores_witness:
  "''enron'' \<in> {''enron'', ''real-estate''} \<and>
   [(''a.txt'', GInt 1), (''b.txt'', GInt 1)] \<noteq> [] \<and>
   predicted_positives (key_attr_of ''enron'')
      [[(''filename'', VStr ''b.txt'')], [(''filename'', VStr '' a.txt'')]] = Inr [''b.txt'', ''a.txt''] \<and>
   set [''b.txt'', ''a.txt''] = fst ` set [(''a.txt'', GInt 1), (''b.txt'', GInt 1)] \<and>
   snd ` set [(''a.txt'', GInt 1), (''b.txt'', GInt 1)] \<subseteq> {GInt 1} \<and>
   compute_f1 [[(''filename'', VStr ''b.txt'')], [(''filename'', VStr '' a.txt'')]]
      [(''a.txt'', GInt 1), (''b.txt'', GInt 1)] ''enron'' = Inr 1"
proof -
  have w: "''enron'' \<in> {''enron'', ''real-estate''}" by simp
  have ne: "[(''a.txt'', GInt 1), (''b.txt'', GInt 1)] \<noteq> []" by simp
  have p: "predicted_positives (key_attr_of ''enron'')
      [[(''filename'', VStr ''b.txt'')], [(''filename'', VStr '' a.txt'')]] = Inr [''b.txt'', ''a.txt'']"
    by (simp add: key_attr_of_def strip_def is_space_def whitespace_def)
  have ex: "set [''b.txt'', ''a.txt''] = fst ` set [(''a.txt'', GInt 1), (''b.txt'', GInt 1)]"
    by auto
  have ones: "snd ` set [(''a.txt'', GInt 1), (''b.txt'', GInt 1)] \<subseteq> {GInt 1}"
    by simp
  from flat_exact_match_scores [OF w ne p ex] ones
  have "compute_f1 [[(''filename'', VStr ''b.txt'')], [(''filename'', VStr '' a.txt'')]]
      [(''a.txt'', GInt 1), (''b.txt'', GInt 1)] ''enron'' = Inr 1"
    by blast
  with w ne p ex ones show ?thesis by blast
qed

text \<open>
  Claim C6 as stated ("regardless of the labels") fails: with the single entry
  \<^verbatim>\<open>a.txt\<close> labeled 0 and the single prediction \<^verbatim>\<open>a.txt\<close>, the predicted set
  equals the key set, the vectors are \<open>[0]\<close> and \<open>[1]\<close>, and precision, recall and
  F1 are \<open>0.0\<close>.
\<close>

theorem flat_exact_match_counterexample:
  "predicted_positives (key_attr_of ''enron'') [[(''filename'', VStr ''a.txt'')]] = Inr [''a.txt''] \<and>
   set [''a.txt''] = fst ` set [(''a.txt'', GInt 0)] \<and>
   build_vectors [[(''filename'', VStr ''a.txt'')]] [(''a.txt'', GInt 0)] ''enron'' = Inr ([GInt 0], [1]) \<and>
   precision_score ''binary'' [GInt 0] [1] = Inr 0 \<and>
   recall_score ''binary'' [GInt 0] [1] = Inr 0 \<and>
   f1_score ''binary'' [GInt 0] [1] = Inr 0 \<and>
   compute_f1 [[(''filename'', VStr ''a.txt'')]] [(''a.txt'', GInt 0)] ''enron'' = Inr 0"
proof -
  have p: "predicted_positives (key_attr_of ''enron'') [[(''filename'', VStr ''a.txt'')]] = Inr [''a.txt'']"
    by (simp add: key_attr_of_def strip_def is_space_def whitespace_def)
  have b: "build_vectors [[(''filename'', VStr ''a.txt'')]] [(''a.txt'', GInt 0)] ''enron'' = Inr ([GInt 0], [1])"
    by (simp add: build_vectors_def flat_vectors_def key_attr_of_def strip_def is_space_def
          whitespace_def)
  have s: "prf_sums ''binary'' [GInt 0] [1] = Inr (0, 1, 0)"
    by (simp add: prf_sums_def count_pairs_def)
  have pr: "precision_score ''binary'' [GInt 0] [1] = Inr 0"
    by (simp add: precision_score_def s prf_divide_def)
  have re: "recall_score ''binary'' [GInt 0] [1] = Inr 0"
    by (simp add: recall_score_def s prf_divide_def)
  have f: "f1_score ''binary'' [GInt 0] [1] = Inr 0"
    by (simp add: f1_score_def s prf_divide_def)
  have c: "compute_f1 [[(''filename'', VStr ''a.txt'')]] [(''a.txt'', GInt 0)] ''enron'' = Inr 0"
    by (simp add: compute_f1_def b avg_method_def pr re f)
  from p b pr re f c show ?thesis by simp
qed
section \<open>The evaluator on an empty index\<close>

text \<open>
  Claim C1, as amended. Whatever the workload and the result records, \<open>compute_f1\<close> on
  an empty ground-truth index returns \<open>0.0\<close> at once: the vectors are not built, so
  records on which building them would raise do not matter. A labeled file that is missing
  (or an empty path) makes the loader return the empty index for every workload. A missing
  reference directory makes every index the loader returns for a flat workload empty, and
  the enron loader does return on a table each of whose rows has a first cell. The nested
  workload never looks at the reference directory: its index is the same whatever the
  directory.
\<close>

theorem empty_ground_truth_scores_zero:
  "compute_f1 results [] workload = Inr 0 \<and>
   (gt_path = [] \<or> \<not> path_exists env gt_path \<longrightarrow>
      load_ground_truth env wl gt_path dataset_dir = Inr []) \<and>
   (wl \<in> {''enron'', ''real-estate''} \<and> \<not> path_exists env dataset_dir \<and>
    load_ground_truth env wl gt_path dataset_dir = Inr g' \<longrightarrow>
      g' = [] \<and> compute_f1 results g' workload = Inr 0) \<and>
   (\<not> path_exists env dataset_dir \<and>
    (\<forall>df0. read_csv env gt_path = Inr df0 \<longrightarrow> [] \<notin> set (rows df0)) \<longrightarrow>
      load_ground_truth env ''enron'' gt_path dataset_dir = Inr []) \<and>
   load_ground_truth env ''medical-schema-matching'' gt_path dataset_dir =
     load_ground_truth env ''medical-schema-matching'' gt_path other_dir"
proof -
  have empty: "compute_f1 rs [] w = Inr 0" for rs w
    by (simp add: compute_f1_def)
  have missing_file: "load_ground_truth env wl gt_path dataset_dir = Inr []"
    if "gt_path = [] \<or> \<not> path_exists env gt_path"
    using that by (auto simp: load_ground_truth_def)
  have missing_dir: "g' = []"
    if wl: "wl \<in> {''enron'', ''real-estate''}" and nodir: "\<not> path_exists env dataset_dir"
      and ld: "load_ground_truth env wl gt_path dataset_dir = Inr g'"
  proof -
    have act: "actual_entries env dataset_dir = Inr []"
      using nodir by (simp add: actual_entries_def)
    from wl consider "wl = ''enron''" | "wl = ''real-estate''" by auto
    then show ?thesis
    proof cases
      case 1
      with ld act show ?thesis
        by (auto simp: load_ground_truth_def Let_def split: if_splits sum.splits
                 dest: enron_rows_no_files)
    next
      case 2
      with ld act show ?thesis
        by (auto simp: load_ground_truth_def Let_def split: if_splits sum.splits
                 dest: real_estate_rows_no_listings)
    qed
  qed
  have enron_total: "load_ground_truth env ''enron'' gt_path dataset_dir = Inr []"
    if nodir: "\<not> path_exists env dataset_dir"
      and full: "\<forall>df0. read_csv env gt_path = Inr df0 \<longrightarrow> [] \<notin> set (rows df0)"
  proof (cases "read_csv env gt_path")
    case (Inl e)
    then show ?thesis by (simp add: load_ground_truth_def)
  next
    case (Inr df0)
    with full have "[] \<notin> set (rows (normalize_columns df0))"
      by (simp add: normalize_columns_def)
    then have "enron_rows env (columns (normalize_columns df0)) [] 0
                 (rows (normalize_columns df0)) [] = Inr []"
      by (rule enron_rows_total_no_files)
    with Inr nodir show ?thesis
      by (simp add: load_ground_truth_def Let_def actual_entries_def)
  qed
  have medical: "load_ground_truth env ''medical-schema-matching'' gt_path dataset_dir =
                 load_ground_truth env ''medical-schema-matching'' gt_path other_dir"
    by (simp add: load_ground_truth_def Let_def split: sum.splits)
  show ?thesis
    using empty missing_file missing_dir enron_total medical by auto
qed

theorem empty_ground_truth_scores_zero_witness:
  "\<not> path_exists env_missing ''gt.csv'' \<and>
   load_ground_truth env_missing ''medical-schema-matching'' ''gt.csv'' ''data'' = Inr [] \<and>
   \<not> path_exists env_no_dir ''data'' \<and>
   load_ground_truth env_no_dir ''enron'' ''gt.csv'' ''data'' = Inr [] \<and>
   compute_f1 [[(''filename'', VStr ''a.txt'')]] [] ''enron'' = Inr 0 \<and>
   build_vectors [[(''filename'', VNone)]] [] ''enron'' = Inl AttributeError \<and>
   compute_f1 [[(''filename'', VNone)]] [] ''enron'' = Inr 0"
proof -
  have bv: "build_vectors [[(''filename'', VNone)]] [] ''enron'' = Inl AttributeError"
    by (simp add: build_vectors_def key_attr_of_def)
  have a: "\<not> path_exists env_missing ''gt.csv''" by (simp add: env_missing_def)
  have b: "\<not> path_exists env_no_dir ''data''" by (simp add: env_no_dir_def)
  have c: "\<forall>df0. read_csv env_no_dir ''gt.csv'' = Inr df0 \<longrightarrow> [] \<notin> set (rows df0)"
    by (auto simp: env_no_dir_def)
  from empty_ground_truth_scores_zero
        [of "[[(''filename'', VStr ''a.txt'')]]" "''enron''" "''gt.csv''" env_missing
            "''medical-schema-matching''" "''data''" "[]" "''data''"] a
  have m: "load_ground_truth env_missing ''medical-schema-matching'' ''gt.csv'' ''data'' = Inr []"
    and s: "compute_f1 [[(''filename'', VStr ''a.txt'')]] [] ''enron'' = Inr 0"
    by blast+
  from empty_ground_truth_scores_zero
        [of "[[(''filename'', VNone)]]" "''enron''" "''gt.csv''" env_no_dir
            "''enron''" "''data''" "[]" "''data''"] b c
  have d: "load_ground_truth env_no_dir ''enron'' ''gt.csv'' ''data'' = Inr []"
    and t: "compute_f1 [[(''filename'', VNone)]] [] ''enron'' = Inr 0"
    by blast+
  from a b m d s t bv show ?thesis by blast
qed

text \<open>
  Claim C1 as stated fails for a missing reference directory: the nested workload builds
  its index from the labeled file alone. With no reference directory the index of the wide
  table \<^verbatim>\<open>(age, 1)\<close>, \<^verbatim>\<open>(name, missing)\<close> is not empty, and a record of that
  source that has the attribute \<^verbatim>\<open>age\<close> scores \<open>1.0\<close>.
\<close>

theorem missing_directory_counterexample:
  "\<not> path_exists env_medical_no_dir ''data'' \<and>
   load_ground_truth env_medical_no_dir ''medical-schema-matching'' ''gt.csv'' ''data'' =
     Inr [(''sourcea'', GDict [(''age'', True), (''name'', False)])] \<and>
   compute_f1 [[(''filename'', VStr ''sourceA_export.csv''), (''age'', VStr ''34'')]]
     [(''sourcea'', GDict [(''age'', True), (''name'', False)])] ''medical-schema-matching''
     = Inr 1"
proof -
  have a: "\<not> path_exists env_medical_no_dir ''data''" by (simp add: env_medical_no_dir_def)
  have f: "record_fname_lower [(''filename'', VStr ''sourceA_export.csv''), (''age'', VStr ''34'')]
             = Inr ''sourcea_export.csv''"
    by (simp add: record_fname_lower_def lower_def lower_char_def upper_letters_def
          lower_letters_def)
  have n: "nested_record [(''sourcea'', GDict [(''age'', True), (''name'', False)])]
             [(''filename'', VStr ''sourceA_export.csv''), (''age'', VStr ''34'')]
           = Inr ([GInt 1, GInt 0], [1, 0])"
    by (simp add: nested_record_def f has_value_def strip_def is_space_def whitespace_def)
  have b: "build_vectors [[(''filename'', VStr ''sourceA_export.csv''), (''age'', VStr ''34'')]]
             [(''sourcea'', GDict [(''age'', True), (''name'', False)])] ''medical-schema-matching''
           = Inr ([GInt 1, GInt 0], [1, 0])"
    by (simp add: build_vectors_def n)
  have s: "prf_sums ''micro'' [GInt 1, GInt 0] [1, 0] = Inr (2, 2, 2)"
    by (simp add: prf_sums_def count_pairs_def)
  have c: "compute_f1 [[(''filename'', VStr ''sourceA_export.csv''), (''age'', VStr ''34'')]]
     [(''sourcea'', GDict [(''age'', True), (''name'', False)])] ''medical-schema-matching''
     = Inr 1"
    by (simp add: compute_f1_def b avg_method_def precision_score_def recall_score_def
          f1_score_def s prf_divide_def)
  from a load_env_medical_no_dir c show ?thesis by simp
qed

section \<open>Normal form of the keys of the index\<close>

text \<open>
  Claim C2, as amended. Every key of an index returned by \<open>load_ground_truth\<close> is
  trimmed. A key of a flat index (\<^verbatim>\<open>enron\<close>, \<^verbatim>\<open>real-estate\<close>) is the text of the
  identifier cell of some row, trimmed and otherwise unchanged (its capitals are kept), and
  it is an entry of the listing of the reference directory; for \<^verbatim>\<open>enron\<close> the
  identifier may also be the first cell of the row. A key of the nested index is a source
  column name, lower-cased and trimmed, and the attribute names under it are trimmed. The
  lookups of the evaluator use the matching normal form: the flat lookup trims the predicted
  identifier and does not lower-case it, the nested lookup lower-cases the file name of the
  record and does not trim it.
\<close>

theorem index_keys_normal_form:
  assumes ld: "load_ground_truth env workload gt_path dataset_dir = Inr g"
    and kv: "(k, v) \<in> set g"
  shows "strip k = k \<and>
         (\<exists>df0 cols. read_csv env gt_path = Inr df0 \<and>
            cols = map (\<lambda>c. lower (strip c)) (columns df0) \<and>
            (workload = ''enron'' \<and>
               (\<exists>listing i label. listdir env dataset_dir = Inr listing \<and> k \<in> set listing \<and>
                  i < length (rows df0) \<and> v = GInt label \<and>
                  ((\<exists>cand l. find (\<lambda>c. c \<in> set cols) [''filename'', ''file'', ''name''] = Some cand \<and>
                      row_lookup cols (rows df0 ! i) cand = Some l \<and>
                      k = strip (looked_str env i cand l)) \<or>
                   (rows df0 ! i \<noteq> [] \<and> k = strip (py_str (hd (rows df0 ! i)))))) \<or>
             workload = ''real-estate'' \<and>
               (\<exists>listing i label cand l. listdir env dataset_dir = Inr listing \<and> k \<in> set listing \<and>
                  i < length (rows df0) \<and> v = GInt label \<and>
                  find (\<lambda>c. c \<in> set cols) [''listing'', ''filename'', ''id'', ''name''] = Some cand \<and>
                  row_lookup cols (rows df0 ! i) cand = Some l \<and>
                  k = strip (looked_str env i cand l)) \<or>
             workload = ''medical-schema-matching'' \<and>
               (\<exists>author inner. author \<in> set (tl cols) \<and> k = strip (lower author) \<and> lower k = k \<and>
                  v = GDict inner \<and> (\<forall>a\<in>fst ` set inner. strip a = a)))) \<and>
         (\<forall>ps. predicted_positives (key_attr_of workload) results = Inr ps \<longrightarrow>
            ps = map strip
                   (concat (map (\<lambda>r. case map_of r (key_attr_of workload) of
                                        Some (VStr s) \<Rightarrow> [s] | _ \<Rightarrow> []) results))) \<and>
         (\<forall>s. map_of record ''filename'' = Some (VStr s) \<longrightarrow>
            record_fname_lower record = Inr (lower s))"
proof -
  from kv have ne: "g \<noteq> []" by auto
  from load_ground_truth_parts [OF ld ne] obtain df0 where
    df0: "read_csv env gt_path = Inr df0" and
    parts: "workload = ''enron'' \<and>
              (\<exists>actual. actual_entries env dataset_dir = Inr actual \<and>
                 enron_rows env (map (\<lambda>c. lower (strip c)) (columns df0)) actual 0 (rows df0) []
                   = Inr g) \<or>
            workload = ''real-estate'' \<and>
              (\<exists>actual. actual_entries env dataset_dir = Inr actual \<and>
                 real_estate_rows env (map (\<lambda>c. lower (strip c)) (columns df0)) actual 0
                   (rows df0) [] = Inr g) \<or>
            workload = ''medical-schema-matching'' \<and>
              medical_authors env (map (\<lambda>c. lower (strip c)) (columns df0)) (rows df0)
                (tl (map (\<lambda>c. lower (strip c)) (columns df0))) [] = Inr g"
    by blast
  let ?cols = "map (\<lambda>c. lower (strip c)) (columns df0)"
  let ?enron = "\<exists>listing i label. listdir env dataset_dir = Inr listing \<and> k \<in> set listing \<and>
                  i < length (rows df0) \<and> v = GInt label \<and>
                  ((\<exists>cand l. find (\<lambda>c. c \<in> set ?cols) [''filename'', ''file'', ''name''] = Some cand \<and>
                      row_lookup ?cols (rows df0 ! i) cand = Some l \<and>
                      k = strip (looked_str env i cand l)) \<or>
                   (rows df0 ! i \<noteq> [] \<and> k = strip (py_str (hd (rows df0 ! i)))))"
  let ?real = "\<exists>listing i label cand l. listdir env dataset_dir = Inr listing \<and> k \<in> set listing \<and>
                  i < length (rows df0) \<and> v = GInt label \<and>
                  find (\<lambda>c. c \<in> set ?cols) [''listing'', ''filename'', ''id'', ''name''] = Some cand \<and>
                  row_lookup ?cols (rows df0 ! i) cand = Some l \<and>
                  k = strip (looked_str env i cand l)"
  let ?medical = "\<exists>author inner. author \<in> set (tl ?cols) \<and> k = strip (lower author) \<and> lower k = k \<and>
                  v = GDict inner \<and> (\<forall>a\<in>fst ` set inner. strip a = a)"
  have shape: "strip k = k \<and>
               (workload = ''enron'' \<and> ?enron \<or> workload = ''real-estate'' \<and> ?real \<or>
                workload = ''medical-schema-matching'' \<and> ?medical)"
    using parts
  proof (elim disjE conjE exE)
    fix actual
    assume wl: "workload = ''enron''"
      and act: "actual_entries env dataset_dir = Inr actual"
      and loop: "enron_rows env ?cols actual 0 (rows df0) [] = Inr g"
    from enron_rows_origin [OF loop kv] obtain j label where
      j: "j < length (rows df0)" and v: "v = GInt label" and k: "k \<in> set actual" and
      origin: "(\<exists>cand l. find (\<lambda>c. c \<in> set ?cols) [''filename'', ''file'', ''name''] = Some cand \<and>
                 row_lookup ?cols (rows df0 ! j) cand = Some l \<and>
                 k = strip (looked_str env j cand l)) \<or>
               (rows df0 ! j \<noteq> [] \<and> k = strip (py_str (hd (rows df0 ! j))))"
      by auto
    from actual_entries_listing [OF act k] have ls: "listdir env dataset_dir = Inr actual" by simp
    from origin have "strip k = k" by (auto simp: strip_idem)
    moreover from ls k j v origin have ?enron by blast
    ultimately show ?thesis using wl by blast
  next
    fix actual
    assume wl: "workload = ''real-estate''"
      and act: "actual_entries env dataset_dir = Inr actual"
      and loop: "real_estate_rows env ?cols actual 0 (rows df0) [] = Inr g"
    from real_estate_rows_origin [OF loop kv] obtain j label cand l where
      j: "j < length (rows df0)" and v: "v = GInt label" and k: "k \<in> set actual" and
      c: "find (\<lambda>c. c \<in> set ?cols) [''listing'', ''filename'', ''id'', ''name''] = Some cand" and
      l: "row_lookup ?cols (rows df0 ! j) cand = Some l" and
      ks: "k = strip (looked_str env j cand l)"
      by auto
    from actual_entries_listing [OF act k] have ls: "listdir env dataset_dir = Inr actual" by simp
    from ks have "strip k = k" by (simp add: strip_idem)
    moreover from ls k j v c l ks have ?real by blast
    ultimately show ?thesis using wl by blast
  next
    assume wl: "workload = ''medical-schema-matching''"
      and loop: "medical_authors env ?cols (rows df0) (tl ?cols) [] = Inr g"
    from medical_authors_entries [OF loop kv] obtain author inner where
      a: "author \<in> set (tl ?cols)" and k: "k = strip (lower author)" and v: "v = GDict inner" and
      inner: "medical_rows env ?cols author 0 (rows df0) [] = Inr inner"
      by auto
    from a have ne: "?cols \<noteq> []" by auto
    have names: "\<forall>a\<in>fst ` set inner. strip a = a"
    proof
      fix n assume "n \<in> fst ` set inner"
      then obtain flag where "(n, flag) \<in> set inner" by auto
      from medical_rows_entries [OF inner ne this] obtain j where
        "medical_entry env ?cols author (0 + j) (rows df0 ! j) = Inr (n, flag)"
        by auto
      then obtain attr where "n = strip (looked_str env (0 + j) (hd ?cols) attr)"
        unfolding medical_entry_Inr by blast
      then show "strip n = n" by (simp add: strip_idem)
    qed
    from k have "strip k = k" "lower k = k" by (simp_all add: source_key_normal)
    moreover from this a k v names have ?medical by blast
    ultimately show ?thesis using wl by blast
  qed
  from shape have trimmed: "strip k = k" by blast
  from shape df0 have origin:
    "\<exists>df0 cols. read_csv env gt_path = Inr df0 \<and>
            cols = map (\<lambda>c. lower (strip c)) (columns df0) \<and>
            (workload = ''enron'' \<and>
               (\<exists>listing i label. listdir env dataset_dir = Inr listing \<and> k \<in> set listing \<and>
                  i < length (rows df0) \<and> v = GInt label \<and>
                  ((\<exists>cand l. find (\<lambda>c. c \<in> set cols) [''filename'', ''file'', ''name''] = Some cand \<and>
                      row_lookup cols (rows df0 ! i) cand = Some l \<and>
                      k = strip (looked_str env i cand l)) \<or>
                   (rows df0 ! i \<noteq> [] \<and> k = strip (py_str (hd (rows df0 ! i)))))) \<or>
             workload = ''real-estate'' \<and>
               (\<exists>listing i label cand l. listdir env dataset_dir = Inr listing \<and> k \<in> set listing \<and>
                  i < length (rows df0) \<and> v = GInt label \<and>
                  find (\<lambda>c. c \<in> set cols) [''listing'', ''filename'', ''id'', ''name''] = Some cand \<and>
                  row_lookup cols (rows df0 ! i) cand = Some l \<and>
                  k = strip (looked_str env i cand l)) \<or>
             workload = ''medical-schema-matching'' \<and>
               (\<exists>author inner. author \<in> set (tl cols) \<and> k = strip (lower author) \<and> lower k = k \<and>
                  v = GDict inner \<and> (\<forall>a\<in>fst ` set inner. strip a = a)))"
    by (intro exI [of _ df0] exI [of _ ?cols]) blast
  have look: "\<forall>ps. predicted_positives (key_attr_of workload) results = Inr ps \<longrightarrow>
            ps = map strip
                   (concat (map (\<lambda>r. case map_of r (key_attr_of workload) of
                                        Some (VStr s) \<Rightarrow> [s] | _ \<Rightarrow> []) results))"
    using predicted_positives_strips by blast
  have nest: "\<forall>s. map_of record ''filename'' = Some (VStr s) \<longrightarrow>
            record_fname_lower record = Inr (lower s)"
    by (simp add: record_fname_lower_def)
  from trimmed origin look nest show ?thesis by blast
qed

theorem index_keys_normal_form_witness:
  "load_ground_truth env_upper ''real-estate'' ''gt.csv'' ''data'' = Inr [(''Report.TXT'', GInt 1)] \<and>
   (''Report.TXT'', GInt 1) \<in> set [(''Report.TXT'', GInt 1)] \<and>
   strip ''Report.TXT'' = ''Report.TXT'' \<and>
   (\<exists>df0 listing i cand l.
       read_csv env_upper ''gt.csv'' = Inr df0 \<and>
       listdir env_upper ''data'' = Inr listing \<and> ''Report.TXT'' \<in> set listing \<and>
       i < length (rows df0) \<and>
       find (\<lambda>c. c \<in> set (map (\<lambda>c. lower (strip c)) (columns df0)))
         [''listing'', ''filename'', ''id'', ''name''] = Some cand \<and>
       row_lookup (map (\<lambda>c. lower (strip c)) (columns df0)) (rows df0 ! i) cand = Some l \<and>
       ''Report.TXT'' = strip (looked_str env_upper i cand l)) \<and>
   predicted_positives (key_attr_of ''real-estate'') [[(''listing'', VStr '' Report.TXT '')]]
     = Inr [''Report.TXT''] \<and>
   record_fname_lower [(''filename'', VStr ''SourceA.csv '')] = Inr ''sourcea.csv ''"
proof -
  have m: "(''Report.TXT'', GInt 1) \<in> set [(''Report.TXT'', GInt 1)]" by simp
  have p: "predicted_positives (key_attr_of ''real-estate'') [[(''listing'', VStr '' Report.TXT '')]]
            = Inr [''Report.TXT'']"
    by (simp add: key_attr_of_def strip_def is_space_def whitespace_def)
  have f: "map_of [(''filename'', VStr ''SourceA.csv '')] ''filename'' = Some (VStr ''SourceA.csv '')"
    by simp
  have lw: "lower ''SourceA.csv '' = ''sourcea.csv ''"
    by (simp add: lower_def lower_char_def upper_letters_def lower_letters_def)
  note inst = index_keys_normal_form [OF load_env_upper(2) m,
      of "[[(''listing'', VStr '' Report.TXT '')]]" "[(''filename'', VStr ''SourceA.csv '')]"]
  from inst have a: "strip ''Report.TXT'' = ''Report.TXT''" by blast
  have ne1: "''real-estate'' \<noteq> ''enron''" by simp
  have ne2: "''real-estate'' \<noteq> ''medical-schema-matching''" by simp
  from inst ne1 ne2 have b: "\<exists>df0 listing i cand l.
       read_csv env_upper ''gt.csv'' = Inr df0 \<and>
       listdir env_upper ''data'' = Inr listing \<and> ''Report.TXT'' \<in> set listing \<and>
       i < length (rows df0) \<and>
       find (\<lambda>c. c \<in> set (map (\<lambda>c. lower (strip c)) (columns df0)))
         [''listing'', ''filename'', ''id'', ''name''] = Some cand \<and>
       row_lookup (map (\<lambda>c. lower (strip c)) (columns df0)) (rows df0 ! i) cand = Some l \<and>
       ''Report.TXT'' = strip (looked_str env_upper i cand l)"
    by blast
  from inst f lw have c: "record_fname_lower [(''filename'', VStr ''SourceA.csv '')] = Inr ''sourcea.csv ''"
    by simp
  from load_env_upper(2) m a b p c show ?thesis by blast
qed

text \<open>
  Claim C2 as stated fails for both flat workloads: the file name \<^verbatim>\<open>" Report.TXT "\<close>
  is stored under the key \<^verbatim>\<open>Report.TXT\<close>, trimmed but with its capitals.
\<close>

theorem index_keys_lower_case_counterexample:
  "load_ground_truth env_upper ''enron'' ''gt.csv'' ''data'' = Inr [(''Report.TXT'', GInt 1)] \<and>
   load_ground_truth env_upper ''real-estate'' ''gt.csv'' ''data'' = Inr [(''Report.TXT'', GInt 1)] \<and>
   lower ''Report.TXT'' = ''report.txt'' \<and>
   lower ''Report.TXT'' \<noteq> ''Report.TXT''"
proof -
  have "lower ''Report.TXT'' = ''report.txt''"
    by (simp add: lower_def lower_char_def upper_letters_def lower_letters_def)
  with load_env_upper show ?thesis by simp
qed

section \<open>A label that is no integer\<close>

text \<open>
  Claim C3 says that \<open>load_ground_truth\<close> never raises. For the real-estate workload
  it does: the label is read by \<^verbatim>\<open>int(row[label_col])\<close> outside any \<^verbatim>\<open>try\<close>, so
  a label cell holding the text \<^verbatim>\<open>yes\<close> raises \<^verbatim>\<open>ValueError\<close> to the caller.
  The enron branch reads the same file with the label defaulting to 1.
\<close>

theorem real_estate_label_raises:
  "load_ground_truth env_text_label ''real-estate'' ''gt.csv'' ''listings'' = Inl ValueError \<and>
   load_ground_truth env_text_label ''enron'' ''gt.csv'' ''listings'' = Inr [(''house1'', GInt 1)]"
  using load_env_text_label load_env_text_label_enron by simp

section \<open>Rows without an identifier column\<close>




end
